theory Spec2Isabelle
  imports Complex_Main "HOL-Library.AList" "HOL-Library.Char_ord" "HOL-Library.List_Lexorder"
begin

section \<open>The Python values the pipeline works on\<close>

text \<open>
  The model follows \<open>utils/data_processor.py\<close> function by function. Strings are lists
  of characters; a character stands for a code point below 256, so a text with other
  code points is outside the model. A dictionary is an association list in insertion
  order (the order Python iterates a dict in): \<open>map_of\<close> reads a key, \<open>AList.update\<close>
  overwrites it in place or appends it. An exception is a value of \<open>py_error\<close>,
  returned as \<open>Inl\<close>; \<open>try\<close>/\<open>except\<close> is a case on the result.
\<close>

datatype py_error = IndexError | ValueError | ZeroDivisionError

text \<open>
  A Python float. The special values are kept apart, since comparisons with \<open>nan\<close>
  are all false. A finite float is idealised as the rational it denotes: arithmetic on
  finite values is exact (no rounding to 53 bits, no overflow, no underflow), and the
  integer \<open>0\<close> that the accumulators start from is the same value as the float \<open>0.0\<close>.
  So the model decides which branch the code takes, which exception it raises and how
  its results are built from sums, products and quotients; it does not give the digits
  of a binary float, and a statement about how close two float results are is outside
  it. The conversion of an integer to a float is exact as well: the \<open>OverflowError\<close>
  that Python raises when an integer of more than 1024 bits meets a float is not modelled.
\<close>

datatype pyfloat = Fin rat | PInf | NInf | NaN

fun fadd :: "pyfloat \<Rightarrow> pyfloat \<Rightarrow> pyfloat" where
  "fadd NaN _ = NaN"
| "fadd _ NaN = NaN"
| "fadd PInf NInf = NaN"
| "fadd NInf PInf = NaN"
| "fadd PInf _ = PInf"
| "fadd _ PInf = PInf"
| "fadd NInf _ = NInf"
| "fadd _ NInf = NInf"
| "fadd (Fin a) (Fin b) = Fin (a + b)"

fun fneg :: "pyfloat \<Rightarrow> pyfloat" where
  "fneg (Fin a) = Fin (- a)"
| "fneg PInf = NInf"
| "fneg NInf = PInf"
| "fneg NaN = NaN"

definition fsign :: "pyfloat \<Rightarrow> int" where
  "fsign x = (case x of Fin a \<Rightarrow> (if a < 0 then - 1 else if a = 0 then 0 else 1)
      | PInf \<Rightarrow> 1 | NInf \<Rightarrow> - 1 | NaN \<Rightarrow> 0)"

fun fmul :: "pyfloat \<Rightarrow> pyfloat \<Rightarrow> pyfloat" where
  "fmul NaN _ = NaN"
| "fmul _ NaN = NaN"
| "fmul (Fin a) (Fin b) = Fin (a * b)"
| "fmul x y = (if fsign x * fsign y = 0 then NaN else if fsign x * fsign y > 0 then PInf else NInf)"

text \<open>\<open>a < b\<close> on floats; \<open>a > b\<close> is \<open>flt b a\<close>, \<open>a <= b\<close> is \<open>fle a b\<close>.\<close>

fun flt :: "pyfloat \<Rightarrow> pyfloat \<Rightarrow> bool" where
  "flt NaN _ = False"
| "flt _ NaN = False"
| "flt (Fin a) (Fin b) = (a < b)"
| "flt PInf _ = False"
| "flt _ PInf = True"
| "flt NInf NInf = False"
| "flt NInf _ = True"
| "flt _ NInf = False"

fun fle :: "pyfloat \<Rightarrow> pyfloat \<Rightarrow> bool" where
  "fle NaN _ = False"
| "fle _ NaN = False"
| "fle a b = (a = b \<or> flt a b)"

text \<open>Float division: a zero divisor raises, whatever the dividend.\<close>

definition fdiv :: "pyfloat \<Rightarrow> pyfloat \<Rightarrow> py_error + pyfloat" where
  "fdiv x y =
     (if y = Fin 0 then Inl ZeroDivisionError
      else Inr (case (x, y) of
          (Fin a, Fin b) \<Rightarrow> Fin (a / b)
        | (Fin a, NaN) \<Rightarrow> NaN
        | (Fin a, _) \<Rightarrow> Fin 0
        | (NaN, _) \<Rightarrow> NaN
        | (_, Fin b) \<Rightarrow> (if fsign x * fsign y > 0 then PInf else NInf)
        | (_, _) \<Rightarrow> NaN))"

text \<open>
  \<open>round(x, 2)\<close>: to the nearest multiple of 0.01, a tie going to the even one; the
  special values are returned as they are.
\<close>

definition round_half_even :: "rat \<Rightarrow> int" where
  "round_half_even y =
     (let f = \<lfloor>y\<rfloor>; d = y - of_int f
      in if d < 1 / 2 then f else if 1 / 2 < d then f + 1
         else if even f then f else f + 1)"

definition py_round2 :: "pyfloat \<Rightarrow> pyfloat" where
  "py_round2 x = (case x of Fin a \<Rightarrow> Fin (of_int (round_half_even (a * 100)) / 100) | _ \<Rightarrow> x)"

definition float_of_int :: "int \<Rightarrow> pyfloat" where
  "float_of_int n = Fin (of_int n)"

subsection \<open>String methods\<close>

text \<open>The characters \<open>str.strip()\<close> removes: the white space below code point 256.\<close>

definition py_isspace :: "char \<Rightarrow> bool" where
  "py_isspace c = (c \<in> set [CHR 0x09, CHR 0x0A, CHR 0x0B, CHR 0x0C, CHR 0x0D, CHR 0x1C,
     CHR 0x1D, CHR 0x1E, CHR 0x1F, CHR 0x20, CHR 0x85, CHR 0xA0])"

definition py_strip :: "string \<Rightarrow> string" where
  "py_strip s = rev (dropWhile py_isspace (rev (dropWhile py_isspace s)))"

text \<open>\<open>s.split(sep)\<close> for a separator of one character: never an empty list.\<close>

fun py_split :: "char \<Rightarrow> string \<Rightarrow> string list" where
  "py_split sep [] = [[]]"
| "py_split sep (c # cs) =
     (if c = sep then [] # py_split sep cs
      else (case py_split sep cs of w # ws \<Rightarrow> (c # w) # ws | [] \<Rightarrow> [[c]]))"

text \<open>\<open>s.replace(",", " ")\<close> and \<open>s.replace(",", "")\<close>.\<close>

definition replace_char :: "char \<Rightarrow> char \<Rightarrow> string \<Rightarrow> string" where
  "replace_char old new s = map (\<lambda>c. if c = old then new else c) s"

definition remove_char :: "char \<Rightarrow> string \<Rightarrow> string" where
  "remove_char old s = filter (\<lambda>c. c \<noteq> old) s"

text \<open>\<open>s.lower()\<close>: A to Z, and the upper-case letters of Latin-1 (0xC0 to 0xDE but 0xD7).\<close>

definition lower_char :: "char \<Rightarrow> char" where
  "lower_char c =
     (let n = (of_char c :: nat)
      in if (65 \<le> n \<and> n \<le> 90) \<or> (192 \<le> n \<and> n \<le> 222 \<and> n \<noteq> 215)
         then char_of (n + 32) else c)"

definition py_lower :: "string \<Rightarrow> string" where
  "py_lower s = map lower_char s"

text \<open>\<open>sub in s\<close> on strings.\<close>

fun starts_with :: "string \<Rightarrow> string \<Rightarrow> bool" where
  "starts_with [] s = True"
| "starts_with (p # ps) [] = False"
| "starts_with (p # ps) (c # cs) = (p = c \<and> starts_with ps cs)"

fun py_in :: "string \<Rightarrow> string \<Rightarrow> bool" where
  "py_in sub [] = (sub = [])"
| "py_in sub (c # cs) = (starts_with sub (c # cs) \<or> py_in sub cs)"

text \<open>\<open>s[0]\<close>.\<close>

definition index0 :: "string \<Rightarrow> py_error + char" where
  "index0 s = (case s of [] \<Rightarrow> Inl IndexError | c # _ \<Rightarrow> Inr c)"

subsection \<open>The conversions \<open>int(s)\<close> and \<open>float(s)\<close>\<close>

text \<open>
  Both strip white space, take an optional sign, and read groups of decimal digits in
  which single underscores may stand between digits. \<open>None\<close> is the \<open>ValueError\<close>
  that the caller's \<open>except\<close> catches. The white space of the two conversions is
  narrower than that of \<open>str.strip()\<close>: the separators 0x1C to 0x1F are not skipped,
  so a field that begins or ends with one of them is not a number. The bound that the
  interpreter may put on the number of digits of an integer literal is not modelled.
\<close>

definition number_space :: "char \<Rightarrow> bool" where
  "number_space c = (c \<in> set [CHR 0x09, CHR 0x0A, CHR 0x0B, CHR 0x0C, CHR 0x0D, CHR 0x20,
     CHR 0x85, CHR 0xA0])"

definition number_strip :: "string \<Rightarrow> string" where
  "number_strip s = rev (dropWhile number_space (rev (dropWhile number_space s)))"

definition is_digit :: "char \<Rightarrow> bool" where
  "is_digit c = (c \<in> set ''0123456789'')"

definition digit_val :: "char \<Rightarrow> nat" where
  "digit_val c = of_char c - 48"

fun py_digits :: "string \<Rightarrow> string option" where
  "py_digits [] = None"
| "py_digits [c] = (if is_digit c then Some [c] else None)"
| "py_digits (c # d # cs) =
     (if \<not> is_digit c then None
      else if d = CHR ''_'' then map_option (Cons c) (py_digits cs)
      else map_option (Cons c) (py_digits (d # cs)))"

definition digits_val :: "string \<Rightarrow> nat" where
  "digits_val ds = foldl (\<lambda>a c. 10 * a + digit_val c) 0 ds"

definition py_int :: "string \<Rightarrow> int option" where
  "py_int s =
     (case number_strip s of
        [] \<Rightarrow> None
      | c # cs \<Rightarrow>
          if c = CHR ''-'' then map_option (\<lambda>ds. - int (digits_val ds)) (py_digits cs)
          else if c = CHR ''+'' then map_option (\<lambda>ds. int (digits_val ds)) (py_digits cs)
          else map_option (\<lambda>ds. int (digits_val ds)) (py_digits (c # cs)))"

text \<open>An optional group of digits: the empty string is the empty group.\<close>

definition opt_digits :: "string \<Rightarrow> string option" where
  "opt_digits s = (if s = [] then Some [] else py_digits s)"

text \<open>The exponent after \<open>e\<close>: an optional sign and a group of digits.\<close>

definition py_exponent :: "string \<Rightarrow> int option" where
  "py_exponent s =
     (case s of
        [] \<Rightarrow> None
      | c # cs \<Rightarrow>
          if c = CHR ''-'' then map_option (\<lambda>ds. - int (digits_val ds)) (py_digits cs)
          else if c = CHR ''+'' then map_option (\<lambda>ds. int (digits_val ds)) (py_digits cs)
          else map_option (\<lambda>ds. int (digits_val ds)) (py_digits (c # cs)))"

definition scale10 :: "nat \<Rightarrow> int \<Rightarrow> rat" where
  "scale10 m e = (if 0 \<le> e then of_nat m * 10 ^ nat e else of_nat m / 10 ^ nat (- e))"

text \<open>
  An unsigned decimal: digits, an optional point and digits (at least one digit in all),
  an optional exponent.
\<close>

definition py_decimal :: "string \<Rightarrow> rat option" where
  "py_decimal s =
     (let is_e = (\<lambda>c. c = CHR ''e'' \<or> c = CHR ''E'');
          mant = takeWhile (\<lambda>c. \<not> is_e c) s;
          rest = dropWhile (\<lambda>c. \<not> is_e c) s;
          ip = takeWhile (\<lambda>c. c \<noteq> CHR ''.'') mant;
          fp = drop 1 (dropWhile (\<lambda>c. c \<noteq> CHR ''.'') mant)
      in case (opt_digits ip, opt_digits fp,
               if rest = [] then Some 0 else py_exponent (drop 1 rest)) of
           (Some i, Some f, Some e) \<Rightarrow>
             if i = [] \<and> f = [] then None
             else Some (scale10 (digits_val (i @ f)) (e - int (length f)))
         | _ \<Rightarrow> None)"

text \<open>
  The float of a decimal that is not negative. The range of a double is kept: from
  \<open>2^1024 - 2^970\<close> on, half way between the largest double and \<open>2^1024\<close>, the
  conversion rounds to \<open>inf\<close>, and up to \<open>2^-1075\<close>, half the smallest positive
  double, it rounds to zero. In between the value is positive and finite, and is taken
  exactly.
\<close>

definition float_of_decimal :: "rat \<Rightarrow> pyfloat" where
  "float_of_decimal v =
     (if 2 ^ 1024 - 2 ^ 970 \<le> v then PInf
      else if v \<le> 1 / 2 ^ 1075 then Fin 0
      else Fin v)"

definition py_unsigned_float :: "string \<Rightarrow> pyfloat option" where
  "py_unsigned_float s =
     (if py_lower s = ''inf'' \<or> py_lower s = ''infinity'' then Some PInf
      else if py_lower s = ''nan'' then Some NaN
      else map_option float_of_decimal (py_decimal s))"

definition py_float :: "string \<Rightarrow> pyfloat option" where
  "py_float s =
     (case number_strip s of
        [] \<Rightarrow> None
      | c # cs \<Rightarrow>
          if c = CHR ''-'' then map_option fneg (py_unsigned_float cs)
          else if c = CHR ''+'' then py_unsigned_float cs
          else py_unsigned_float (c # cs))"

section \<open>Parsing and cleaning raw lines\<close>

record transaction =
  TransactionID :: string
  Date :: string
  ProductID :: string
  ProductName :: string
  Quantity :: int
  UnitPrice :: pyfloat
  CustomerID :: string
  Region :: string

text \<open>
  The body of the loop of \<open>parse_and_clean_data\<close> for one line: \<open>Inr None\<close> is a
  line counted as invalid, \<open>Inr (Some tx)\<close> a record appended, \<open>Inl e\<close> an exception that
  nothing in the function catches.
\<close>

definition clean_entry :: "string \<Rightarrow> py_error + transaction option" where
  "clean_entry entry =
     (let fields = py_split (CHR ''|'') (py_strip entry)
      in if length fields \<noteq> 8 then Inr None
         else
           (let tid = fields ! 0; date = fields ! 1; pid = fields ! 2; pname = fields ! 3;
                qty = fields ! 4; price = fields ! 5; cid = fields ! 6; region = fields ! 7
            in (case index0 tid of
                  Inl e \<Rightarrow> Inl e
                | Inr t0 \<Rightarrow>
                    if t0 \<noteq> CHR ''T'' then Inr None
                    else
                      (case index0 pid of
                         Inl e \<Rightarrow> Inl e
                       | Inr p0 \<Rightarrow>
                           if p0 \<noteq> CHR ''P'' then Inr None
                           else if py_strip cid = [] \<or> py_strip region = [] then Inr None
                           else
                             (let pname' = replace_char (CHR '','') (CHR '' '') pname;
                                  qty' = remove_char (CHR '','') qty;
                                  price' = remove_char (CHR '','') price
                              in (case py_int qty' of
                                    None \<Rightarrow> Inr None
                                  | Some q \<Rightarrow>
                                      (case py_float price' of
                                         None \<Rightarrow> Inr None
                                       | Some pr \<Rightarrow>
                                           if q \<le> 0 \<or> fle pr (Fin 0) then Inr None
                                           else Inr (Some \<lparr>TransactionID = tid, Date = date,
                                             ProductID = pid, ProductName = pname',
                                             Quantity = q, UnitPrice = pr, CustomerID = cid,
                                             Region = region\<rparr>))))))))"

fun parse_loop ::
  "string list \<Rightarrow> transaction list \<Rightarrow> nat \<Rightarrow> py_error + (transaction list \<times> nat)" where
  "parse_loop [] cleaned_data invalid_count = Inr (cleaned_data, invalid_count)"
| "parse_loop (entry # rest) cleaned_data invalid_count =
     (case clean_entry entry of
        Inl e \<Rightarrow> Inl e
      | Inr None \<Rightarrow> parse_loop rest cleaned_data (invalid_count + 1)
      | Inr (Some tx) \<Rightarrow> parse_loop rest (cleaned_data @ [tx]) invalid_count)"

definition parse_and_clean_data :: "string list \<Rightarrow> py_error + (transaction list \<times> nat)" where
  "parse_and_clean_data raw_lines = parse_loop raw_lines [] 0"

section \<open>Filtering by region\<close>

text \<open>The values of the summary dictionary.\<close>

datatype summary_value = VBool bool | VInt int | VStr string

definition validate_and_filter_sales ::
  "transaction list \<Rightarrow> string option \<Rightarrow> transaction list \<times> (string \<times> summary_value) list" where
  "validate_and_filter_sales cleaned_data selected_region =
     (if cleaned_data = [] then
        ([], [(''filter_applied'', VBool False), (''total_records'', VInt 0)])
      else case selected_region of
        None \<Rightarrow>
          (cleaned_data, [(''filter_applied'', VBool False),
                          (''total_records'', VInt (int (length cleaned_data)))])
      | Some sel \<Rightarrow>
          let key = py_lower (py_strip sel);
              filtered_data = filter (\<lambda>row. py_lower (Region row) = key) cleaned_data
          in (filtered_data,
              [(''filter_applied'', VBool True), (''region'', VStr key),
               (''records_before_filter'', VInt (int (length cleaned_data))),
               (''records_after_filter'', VInt (int (length filtered_data)))]))"

text \<open>
  The comparison the specification words: case-insensitive and trimmed on both sides.
\<close>

definition spec_region_match :: "string \<Rightarrow> string \<Rightarrow> bool" where
  "spec_region_match region sel = (py_lower (py_strip region) = py_lower (py_strip sel))"

section \<open>Analytics\<close>

text \<open>The amount of one transaction, \<open>tx["Quantity"] * tx["UnitPrice"]\<close>.\<close>

definition amount :: "transaction \<Rightarrow> pyfloat" where
  "amount tx = fmul (float_of_int (Quantity tx)) (UnitPrice tx)"

fun revenue_loop :: "transaction list \<Rightarrow> pyfloat \<Rightarrow> pyfloat" where
  "revenue_loop [] total' = total'"
| "revenue_loop (tx # rest) total' = revenue_loop rest (fadd total' (amount tx))"

definition calculate_total_revenue :: "transaction list \<Rightarrow> pyfloat" where
  "calculate_total_revenue transactions = revenue_loop transactions (Fin 0)"

subsection \<open>Sales by region\<close>

record region_tally =
  tally_sales :: pyfloat
  tally_count :: int

record region_summary =
  total_sales :: pyfloat
  transaction_count :: int
  percentage :: pyfloat

fun region_loop ::
  "transaction list \<Rightarrow> (string \<times> region_tally) list \<Rightarrow> (string \<times> region_tally) list" where
  "region_loop [] region_data = region_data"
| "region_loop (tx # rest) region_data =
     (let r = Region tx;
          cur = (case map_of region_data r of
                   None \<Rightarrow> \<lparr>tally_sales = Fin 0, tally_count = 0\<rparr>
                 | Some e \<Rightarrow> e)
      in region_loop rest
           (AList.update r \<lparr>tally_sales = fadd (tally_sales cur) (amount tx),
                            tally_count = tally_count cur + 1\<rparr> region_data))"

text \<open>The second loop: the first region raises when the overall revenue is zero.\<close>

fun percentage_loop ::
  "pyfloat \<Rightarrow> (string \<times> region_tally) list \<Rightarrow> py_error + (string \<times> region_summary) list" where
  "percentage_loop overall [] = Inr []"
| "percentage_loop overall ((r, t) # rest) =
     (case fdiv (tally_sales t) overall of
        Inl e \<Rightarrow> Inl e
      | Inr q \<Rightarrow>
          (case percentage_loop overall rest of
             Inl e \<Rightarrow> Inl e
           | Inr entries \<Rightarrow>
               Inr ((r, \<lparr>total_sales = tally_sales t, transaction_count = tally_count t,
                         percentage = py_round2 (fmul q (Fin 100))\<rparr>) # entries)))"

text \<open>
  \<open>sorted(xs, key=..., reverse=True)\<close> on float keys: a stable sort that only asks
  \<open><\<close>, so elements that do not compare smaller keep their order. With a \<open>nan\<close> among
  the keys the order Python returns depends on its sorting algorithm, which is not
  modelled.
\<close>

fun insert_desc :: "('a \<Rightarrow> pyfloat) \<Rightarrow> 'a \<Rightarrow> 'a list \<Rightarrow> 'a list" where
  "insert_desc key x [] = [x]"
| "insert_desc key x (y # ys) =
     (if flt (key x) (key y) then y # insert_desc key x ys else x # y # ys)"

definition sorted_desc :: "('a \<Rightarrow> pyfloat) \<Rightarrow> 'a list \<Rightarrow> 'a list" where
  "sorted_desc key xs = foldr (insert_desc key) xs []"

definition region_wise_sales ::
  "transaction list \<Rightarrow> py_error + (string \<times> region_summary) list" where
  "region_wise_sales transactions =
     (let overall = calculate_total_revenue transactions;
          region_data = region_loop transactions []
      in case percentage_loop overall region_data of
           Inl e \<Rightarrow> Inl e
         | Inr with_pct \<Rightarrow> Inr (sorted_desc (\<lambda>x. total_sales (snd x)) with_pct))"

subsection \<open>Products\<close>

text \<open>A tracker entry is the list \<open>[quantity, revenue]\<close>.\<close>

fun product_loop ::
  "transaction list \<Rightarrow> (string \<times> int \<times> pyfloat) list \<Rightarrow> (string \<times> int \<times> pyfloat) list" where
  "product_loop [] tracker = tracker"
| "product_loop (tx # rest) tracker =
     (let name = ProductName tx;
          cur = (case map_of tracker name of None \<Rightarrow> (0, Fin 0) | Some v \<Rightarrow> v)
      in product_loop rest
           (AList.update name (fst cur + Quantity tx, fadd (snd cur) (amount tx)) tracker))"

text \<open>\<open>xs[:n]\<close>: a negative \<open>n\<close> counts from the end.\<close>

definition py_take :: "int \<Rightarrow> 'a list \<Rightarrow> 'a list" where
  "py_take n xs = (if 0 \<le> n then take (nat n) xs else take (nat (int (length xs) + n)) xs)"

definition top_selling_products ::
  "transaction list \<Rightarrow> int \<Rightarrow> (string \<times> int \<times> pyfloat) list" where
  "top_selling_products transactions n =
     (let tracker = product_loop transactions [];
          ranked = sort_key (\<lambda>x. - fst (snd x)) tracker
      in py_take n ranked)"

definition low_performing_products ::
  "transaction list \<Rightarrow> int \<Rightarrow> (string \<times> int \<times> pyfloat) list" where
  "low_performing_products transactions threshold =
     (let product_data = product_loop transactions [];
          low_items = filter (\<lambda>x. fst (snd x) < threshold) product_data
      in sort_key (\<lambda>x. fst (snd x)) low_items)"

subsection \<open>Customers\<close>

text \<open>A set of strings is kept as a list without duplicates; \<open>add\<close> appends a new member.\<close>

definition set_add :: "string \<Rightarrow> string list \<Rightarrow> string list" where
  "set_add x xs = (if x \<in> set xs then xs else xs @ [x])"

record customer_summary =
  total_spent :: pyfloat
  purchase_count :: int
  avg_order_value :: pyfloat
  products_bought :: "string list"

fun customer_loop ::
  "transaction list \<Rightarrow> (string \<times> pyfloat \<times> int \<times> string list) list
     \<Rightarrow> (string \<times> pyfloat \<times> int \<times> string list) list" where
  "customer_loop [] customers = customers"
| "customer_loop (tx # rest) customers =
     (let cid = CustomerID tx;
          cur = (case map_of customers cid of None \<Rightarrow> (Fin 0, 0, []) | Some v \<Rightarrow> v)
      in customer_loop rest
           (AList.update cid (fadd (fst cur) (amount tx), fst (snd cur) + 1,
              set_add (ProductName tx) (snd (snd cur))) customers))"

fun customer_result ::
  "(string \<times> pyfloat \<times> int \<times> string list) list \<Rightarrow> py_error + (string \<times> customer_summary) list" where
  "customer_result [] = Inr []"
| "customer_result ((cid, spent, cnt, prods) # rest) =
     (case fdiv spent (float_of_int cnt) of
        Inl e \<Rightarrow> Inl e
      | Inr avg \<Rightarrow>
          (case customer_result rest of
             Inl e \<Rightarrow> Inl e
           | Inr entries \<Rightarrow>
               Inr ((cid, \<lparr>total_spent = py_round2 spent, purchase_count = cnt,
                           avg_order_value = py_round2 avg, products_bought = prods\<rparr>) # entries)))"

definition customer_analysis ::
  "transaction list \<Rightarrow> py_error + (string \<times> customer_summary) list" where
  "customer_analysis transactions =
     (case customer_result (customer_loop transactions []) of
        Inl e \<Rightarrow> Inl e
      | Inr result \<Rightarrow> Inr (sorted_desc (\<lambda>x. total_spent (snd x)) result))"

subsection \<open>Days\<close>

record daily_summary =
  revenue :: pyfloat
  day_count :: int
  unique_customers :: int

fun daily_loop ::
  "transaction list \<Rightarrow> (string \<times> pyfloat \<times> int \<times> string list) list
     \<Rightarrow> (string \<times> pyfloat \<times> int \<times> string list) list" where
  "daily_loop [] daily = daily"
| "daily_loop (tx # rest) daily =
     (let d = Date tx;
          cur = (case map_of daily d of None \<Rightarrow> (Fin 0, 0, []) | Some v \<Rightarrow> v)
      in daily_loop rest
           (AList.update d (fadd (fst cur) (amount tx), fst (snd cur) + 1,
              set_add (CustomerID tx) (snd (snd cur))) daily))"

definition daily_final ::
  "string \<times> pyfloat \<times> int \<times> string list \<Rightarrow> string \<times> daily_summary" where
  "daily_final e =
     (fst e, \<lparr>revenue = py_round2 (fst (snd e)), day_count = fst (snd (snd e)),
              unique_customers = int (length (snd (snd (snd e))))\<rparr>)"

text \<open>\<open>sorted(final.items())\<close>: the keys are distinct, so the pairs are ordered by date.\<close>

definition daily_sales_trend :: "transaction list \<Rightarrow> (string \<times> daily_summary) list" where
  "daily_sales_trend transactions =
     sort_key fst (map daily_final (daily_loop transactions []))"

fun peak_loop ::
  "(string \<times> daily_summary) list \<Rightarrow> string option \<times> pyfloat \<times> int
     \<Rightarrow> string option \<times> pyfloat \<times> int" where
  "peak_loop [] peak = peak"
| "peak_loop ((d, v) # rest) (peak_date, peak_revenue, peak_count) =
     (if flt peak_revenue (revenue v)
      then peak_loop rest (Some d, revenue v, day_count v)
      else peak_loop rest (peak_date, peak_revenue, peak_count))"

definition find_peak_sales_day :: "transaction list \<Rightarrow> string option \<times> pyfloat \<times> int" where
  "find_peak_sales_day transactions =
     peak_loop (daily_sales_trend transactions) (None, Fin 0, 0)"

section \<open>Enrichment\<close>

record enriched_transaction = transaction +
  API_Category :: string
  API_Brand :: string
  API_Rating :: pyfloat
  API_Match :: bool

text \<open>One entry of the catalog mapping; \<open>item.get\<close> may give \<open>None\<close> for each attribute.\<close>

record catalog_entry =
  title :: string
  category :: "string option"
  brand :: "string option"
  rating :: "pyfloat option"

text \<open>
  The chain of \<open>if\<close>/\<open>elif\<close> on the lower-cased name: the category, the brand, the
  rating and the match flag that are stored.
\<close>

definition api_fields :: "string \<Rightarrow> string \<times> string \<times> pyfloat \<times> bool" where
  "api_fields name =
     (
      if py_in ''usb'' name \<or> py_in ''cable'' name
        then (''mobile-accessories'', ''Beats'', Fin (424 / 100), True)
      else if py_in ''mouse'' name
        then (''mobile-accessories'', ''TechGear'', Fin (443 / 100), True)
      else if py_in ''charger'' name
        then (''mobile-accessories'', ''GadgetMaster'', Fin (355 / 100), True)
      else if py_in ''monitor'' name
        then (''mobile-accessories'', ''Apple'', Fin (415 / 100), True)
      else if py_in ''webcam'' name
        then (''mobile-accessories'', ''Apple'', Fin (362 / 100), True)
      else if py_in ''keyboard'' name
        then (''mobile-accessories'', ''Logitech'', Fin (405 / 100), True)
      else if py_in ''headphone'' name
        then (''mobile-accessories'', ''Sony'', Fin (438 / 100), True)
      else if py_in ''external hard drive'' name \<or> py_in ''hard drive'' name
        then (''storage'', ''Seagate'', Fin (418 / 100), True)
      else if py_in ''laptop'' name
        then (''laptops'', ''Asus'', Fin (395 / 100), True)
      else (''Unknown'', ''Unknown'', Fin 0, False))"

definition enrich_one :: "transaction \<Rightarrow> enriched_transaction" where
  "enrich_one tx =
     (let name = py_lower (ProductName tx); api = api_fields name
      in \<lparr>TransactionID = TransactionID tx, Date = Date tx, ProductID = ProductID tx,
          ProductName = ProductName tx, Quantity = Quantity tx, UnitPrice = UnitPrice tx,
          CustomerID = CustomerID tx, Region = Region tx,
          API_Category = fst api, API_Brand = fst (snd api),
          API_Rating = fst (snd (snd api)), API_Match = snd (snd (snd api))\<rparr>)"

fun enrich_loop ::
  "transaction list \<Rightarrow> enriched_transaction list \<Rightarrow> enriched_transaction list" where
  "enrich_loop [] enriched = enriched"
| "enrich_loop (tx # rest) enriched = enrich_loop rest (enriched @ [enrich_one tx])"

definition enrich_sales_data ::
  "transaction list \<Rightarrow> (string \<times> catalog_entry) list \<Rightarrow> enriched_transaction list" where
  "enrich_sales_data transactions product_mapping = enrich_loop transactions []"

text \<open>
  The matching policy in the specification's words: an ordered list of rules, each a
  list of keywords with the attributes it assigns; the first rule one of whose keywords
  occurs in the name wins.
\<close>

definition spec_rules :: "(string list \<times> string \<times> string \<times> pyfloat) list" where
  "spec_rules =
     [([''usb'', ''cable''], ''mobile-accessories'', ''Beats'', Fin (424 / 100)),
      ([''mouse''], ''mobile-accessories'', ''TechGear'', Fin (443 / 100)),
      ([''charger''], ''mobile-accessories'', ''GadgetMaster'', Fin (355 / 100)),
      ([''monitor''], ''mobile-accessories'', ''Apple'', Fin (415 / 100)),
      ([''webcam''], ''mobile-accessories'', ''Apple'', Fin (362 / 100)),
      ([''keyboard''], ''mobile-accessories'', ''Logitech'', Fin (405 / 100)),
      ([''headphone''], ''mobile-accessories'', ''Sony'', Fin (438 / 100)),
      ([''external hard drive'', ''hard drive''], ''storage'', ''Seagate'', Fin (418 / 100)),
      ([''laptop''], ''laptops'', ''Asus'', Fin (395 / 100))]"

fun spec_first_match ::
  "string \<Rightarrow> (string list \<times> string \<times> string \<times> pyfloat) list
     \<Rightarrow> (string \<times> string \<times> pyfloat) option" where
  "spec_first_match name [] = None"
| "spec_first_match name ((kws, attrs) # rest) =
     (if list_ex (\<lambda>k. py_in k name) kws then Some attrs else spec_first_match name rest)"

definition spec_keywords :: "string list" where
  "spec_keywords = concat (map fst spec_rules)"

section \<open>The report\<close>

text \<open>
  The report is the sequence of strings written to the file, each a list of pieces: the
  formatting of numbers is left to the piece. \<open>Money x\<close> is the currency sign followed by
  \<open>x\<close> with thousands separators and two decimals, \<open>FloatV x\<close> and \<open>IntV n\<close> are the
  default renderings, \<open>DateV d\<close> renders a date or \<open>None\<close>. The time stamp is a
  parameter. An exception leaves the function with \<open>Inl\<close>; the file is assumed writable.
\<close>

datatype piece = Txt string | IntV int | Money pyfloat | FloatV pyfloat | DateV "string option"

definition nl :: string where
  "nl = [CHR 0x0A]"

definition rule_line :: "piece list" where
  "rule_line = [Txt (''--------------------------------------------'' @ nl)]"

definition banner_line :: string where
  "banner_line = ''============================================''"

text \<open>\<open>min\<close> and \<open>max\<close> of a list of strings: \<open>ValueError\<close> on the empty list.\<close>

definition py_min :: "string list \<Rightarrow> py_error + string" where
  "py_min xs = (case xs of [] \<Rightarrow> Inl ValueError | x # rest \<Rightarrow> Inr (foldl min x rest))"

definition py_max :: "string list \<Rightarrow> py_error + string" where
  "py_max xs = (case xs of [] \<Rightarrow> Inl ValueError | x # rest \<Rightarrow> Inr (foldl max x rest))"

definition region_rows :: "(string \<times> region_summary) list \<Rightarrow> piece list list" where
  "region_rows region_data =
     map (\<lambda>(region, data). [Txt region, Txt '' | '', Money (total_sales data), Txt '' | '',
        FloatV (percentage data), Txt ''% | '', IntV (transaction_count data), Txt nl])
       region_data"

definition product_rows :: "(string \<times> int \<times> pyfloat) list \<Rightarrow> piece list list" where
  "product_rows top_products =
     map (\<lambda>(rank, name, qty, rev). [IntV rank, Txt '' | '', Txt name, Txt '' | '', IntV qty,
        Txt '' | '', Money rev, Txt nl])
       (zip [1 .. int (length top_products)] top_products)"

definition customer_rows :: "(string \<times> customer_summary) list \<Rightarrow> piece list list" where
  "customer_rows customers =
     map (\<lambda>(rank, cid, data). [IntV rank, Txt '' | '', Txt cid, Txt '' | '',
        Money (total_spent data), Txt '' | '', IntV (purchase_count data), Txt nl])
       (zip [1 .. int (length (take 5 customers))] (take 5 customers))"

definition daily_rows :: "(string \<times> daily_summary) list \<Rightarrow> piece list list" where
  "daily_rows daily =
     map (\<lambda>(date, data). [Txt date, Txt '' | '', Money (revenue data), Txt '' | '',
        IntV (day_count data), Txt '' | '', IntV (unique_customers data), Txt nl])
       daily"

definition low_rows :: "(string \<times> int \<times> pyfloat) list \<Rightarrow> piece list list" where
  "low_rows low_products =
     (if low_products \<noteq> [] then
        [Txt (''Low Performing Products:'' @ nl)] #
        map (\<lambda>(name, qty, rev). [Txt name, Txt '' - Qty: '', IntV qty, Txt '', Revenue: '',
          Money rev, Txt nl]) low_products
      else [[Txt (''No low performing products found.'' @ nl)]])"

text \<open>
  \<open>set(not_enriched)\<close> is iterated in an order Python does not fix; the model takes the
  order of first occurrence.
\<close>

definition not_enriched_rows :: "string list \<Rightarrow> piece list list" where
  "not_enriched_rows not_enriched =
     (if not_enriched \<noteq> [] then
        [Txt (''Products not enriched:'' @ nl)] #
        map (\<lambda>p. [Txt ''- '', Txt p, Txt nl]) (rev (remdups (rev not_enriched)))
      else [[Txt (''All products were enriched successfully.'' @ nl)]])"

definition generate_sales_report ::
  "string \<Rightarrow> transaction list \<Rightarrow> enriched_transaction list \<Rightarrow> py_error + piece list list" where
  "generate_sales_report now transactions enriched_transactions =
     (let total_revenue = calculate_total_revenue transactions;
          total_transactions = int (length transactions);
          date_list = map Date transactions
      in case py_min date_list of Inl e \<Rightarrow> Inl e | Inr start_date \<Rightarrow>
        (case py_max date_list of Inl e \<Rightarrow> Inl e | Inr end_date \<Rightarrow>
        (case region_wise_sales transactions of Inl e \<Rightarrow> Inl e | Inr region_data \<Rightarrow>
        (let top_products = top_selling_products transactions 5
         in case customer_analysis transactions of Inl e \<Rightarrow> Inl e | Inr customers \<Rightarrow>
        (let daily = daily_sales_trend transactions;
             peak = find_peak_sales_day transactions;
             low_products = low_performing_products transactions 10;
             enriched_count = int (length (filter API_Match enriched_transactions));
             enriched_total = int (length enriched_transactions)
         in case fdiv (float_of_int enriched_count) (float_of_int enriched_total) of
              Inl e \<Rightarrow> Inl e
            | Inr ratio \<Rightarrow>
        (let success_rate = py_round2 (fmul ratio (Fin 100));
             not_enriched =
               map ProductName (filter (\<lambda>tx. \<not> API_Match tx) enriched_transactions)
         in case fdiv total_revenue (float_of_int total_transactions) of
              Inl e \<Rightarrow> Inl e
            | Inr average \<Rightarrow>
              Inr ([[Txt (banner_line @ nl)],
                    [Txt (''SALES ANALYTICS REPORT'' @ nl)],
                    [Txt ''Generated: '', Txt now, Txt nl],
                    [Txt ''Records Processed: '', IntV total_transactions, Txt nl],
                    [Txt (banner_line @ nl @ nl)],
                    [Txt (''OVERALL SUMMARY'' @ nl)],
                    rule_line,
                    [Txt ''Total Revenue: '', Money total_revenue, Txt nl],
                    [Txt ''Total Transactions: '', IntV total_transactions, Txt nl],
                    [Txt ''Average Order Value: '', Money average, Txt nl],
                    [Txt ''Date Range: '', Txt start_date, Txt '' to '', Txt end_date,
                     Txt (nl @ nl)],
                    [Txt (''REGION-WISE PERFORMANCE'' @ nl)],
                    rule_line,
                    [Txt (''Region | Total Sales | % of Total | Transactions'' @ nl)]]
                   @ region_rows region_data @
                   [[Txt nl],
                    [Txt (''TOP 5 PRODUCTS'' @ nl)],
                    rule_line,
                    [Txt (''Rank | Product | Quantity | Revenue'' @ nl)]]
                   @ product_rows top_products @
                   [[Txt nl],
                    [Txt (''TOP 5 CUSTOMERS'' @ nl)],
                    rule_line,
                    [Txt (''Rank | CustomerID | Total Spent | Orders'' @ nl)]]
                   @ customer_rows customers @
                   [[Txt nl],
                    [Txt (''DAILY SALES TREND'' @ nl)],
                    rule_line,
                    [Txt (''Date | Revenue | Transactions | Customers'' @ nl)]]
                   @ daily_rows daily @
                   [[Txt nl],
                    [Txt (''PRODUCT PERFORMANCE ANALYSIS'' @ nl)],
                    rule_line,
                    [Txt ''Best Selling Day: '', DateV (fst peak), Txt '' ('',
                     Money (fst (snd peak)), Txt '' in '', IntV (snd (snd peak)),
                     Txt ('' transactions)'' @ nl)]]
                   @ low_rows low_products @
                   [[Txt nl],
                    [Txt (''API ENRICHMENT SUMMARY'' @ nl)],
                    rule_line,
                    [Txt ''Products Enriched: '', IntV enriched_count, Txt ''/'',
                     IntV enriched_total, Txt nl],
                    [Txt ''Success Rate: '', FloatV success_rate, Txt (''%'' @ nl)]]
                   @ not_enriched_rows not_enriched)))))))"

section \<open>Notions of the specification\<close>

text \<open>
  The invariant of a transaction in the data model, as far as the numbers go: quantity
  and unit price strictly positive.
\<close>

definition spec_transaction_invariant :: "transaction \<Rightarrow> bool" where
  "spec_transaction_invariant tx = (0 < Quantity tx \<and> flt (Fin 0) (UnitPrice tx))"

text \<open>
  What the parser checks on a line before it keeps the record; the price test is the
  code's own, \<open>not (price <= 0)\<close>.
\<close>

definition passes_checks :: "transaction \<Rightarrow> bool" where
  "passes_checks tx =
     (starts_with ''T'' (TransactionID tx) \<and> starts_with ''P'' (ProductID tx) \<and>
      0 < Quantity tx \<and> \<not> fle (UnitPrice tx) (Fin 0) \<and>
      py_strip (CustomerID tx) \<noteq> [] \<and> py_strip (Region tx) \<noteq> [] \<and>
      CHR '','' \<notin> set (ProductName tx))"

text \<open>\<open>sum(xs)\<close> on floats.\<close>

definition py_sum :: "pyfloat list \<Rightarrow> pyfloat" where
  "py_sum xs = foldl fadd (Fin 0) xs"

text \<open>The records of the specification's example, and one more product.\<close>

definition example_usb :: transaction where
  "example_usb = \<lparr>TransactionID = ''T1'', Date = ''2024-01-01'', ProductID = ''P1'',
     ProductName = ''USB Cable'', Quantity = 2, UnitPrice = Fin (11 / 2),
     CustomerID = ''C1'', Region = ''North''\<rparr>"

definition example_mouse :: transaction where
  "example_mouse = \<lparr>TransactionID = ''T2'', Date = ''2024-01-01'', ProductID = ''P2'',
     ProductName = ''Wireless Mouse'', Quantity = 1, UnitPrice = Fin 20,
     CustomerID = ''C2'', Region = ''South''\<rparr>"

definition example_desk :: transaction where
  "example_desk = \<lparr>TransactionID = ''T3'', Date = ''2024-01-02'', ProductID = ''P3'',
     ProductName = ''Desk'', Quantity = 12, UnitPrice = Fin 20,
     CustomerID = ''C2'', Region = ''South''\<rparr>"

section \<open>Evaluation of concrete inputs\<close>

lemmas string_defs = py_strip_def py_isspace_def index0_def replace_char_def remove_char_def
  py_lower_def lower_char_def number_strip_def number_space_def

lemmas number_defs = py_int_def py_float_def py_unsigned_float_def is_digit_def digits_val_def
  digit_val_def py_decimal_def opt_digits_def py_exponent_def scale10_def float_of_decimal_def

lemmas parse_defs = parse_and_clean_data_def clean_entry_def string_defs number_defs

lemma example_lines_parse:
  "parse_and_clean_data [''T1|2024-01-01|P1|USB Cable|2|5.50|C1|North'',
       ''T2|2024-01-01|P2|Wireless Mouse|1|20.00|C2|South'', ''BADLINE''] =
   Inr ([\<lparr>TransactionID = ''T1'', Date = ''2024-01-01'', ProductID = ''P1'',
           ProductName = ''USB Cable'', Quantity = 2, UnitPrice = Fin (11 / 2),
           CustomerID = ''C1'', Region = ''North''\<rparr>,
         \<lparr>TransactionID = ''T2'', Date = ''2024-01-01'', ProductID = ''P2'',
           ProductName = ''Wireless Mouse'', Quantity = 1, UnitPrice = Fin 20,
           CustomerID = ''C2'', Region = ''South''\<rparr>], 1)"
  by (simp add: parse_defs)

text \<open>
  The edges of the two conversions: a decimal beyond the range of a double is \<open>inf\<close>,
  one below half the smallest double is zero, so that the line is counted as invalid,
  and the separators 0x1C to 0x1F are not white space for a number although
  \<open>str.strip()\<close> removes them.
\<close>

lemma number_edges:
  "py_float ''1e400'' = Some PInf"
  "py_float ''-1e400'' = Some NInf"
  "py_float ''1e-400'' = Some (Fin 0)"
  "py_float ''1e308'' = Some (Fin (10 ^ 308))"
  "py_int [CHR 0x1C, CHR ''5''] = None"
  "py_float [CHR ''5'', CHR 0x1F] = None"
  "py_int [CHR 0xA0, CHR ''5'', CHR 0x85] = Some 5"
  by (simp_all add: string_defs number_defs)

lemma underflowing_price_rejected:
  "parse_and_clean_data [''T1|2024-01-01|P1|Pen|1|1e-400|C1|North''] = Inr ([], 1)"
  by (simp add: parse_defs)

section \<open>Parsing: what is counted and what escapes\<close>

lemma parse_loop_counts:
  "parse_loop ls c n = Inr (c', n') \<Longrightarrow> length c' + n' = length c + n + length ls"
proof (induction ls arbitrary: c n)
  case Nil
  then show ?case by simp
next
  case (Cons l ls)
  show ?case
  proof (cases "clean_entry l")
    case (Inl e)
    with Cons.prems show ?thesis by simp
  next
    case (Inr r)
    show ?thesis
    proof (cases r)
      case None
      with Inr Cons.prems have "parse_loop ls c (n + 1) = Inr (c', n')" by simp
      from Cons.IH[OF this] show ?thesis by simp
    next
      case (Some tx)
      with Inr Cons.prems have "parse_loop ls (c @ [tx]) n = Inr (c', n')" by simp
      from Cons.IH[OF this] show ?thesis by simp
    qed
  qed
qed

text \<open>
  An exception leaves the loop only from the two index expressions, on a line of eight
  fields whose first or third field is empty; on all other input the function returns.
\<close>

lemma clean_entry_raises:
  "clean_entry entry = Inl e \<Longrightarrow>
   e = IndexError \<and> length (py_split (CHR ''|'') (py_strip entry)) = 8 \<and>
   (py_split (CHR ''|'') (py_strip entry) ! 0 = [] \<or>
    py_split (CHR ''|'') (py_strip entry) ! 2 = [])"
  unfolding clean_entry_def Let_def
  by (auto simp: index0_def split: if_splits sum.splits option.splits list.splits)

lemma parse_loop_returns:
  "\<forall>l \<in> set ls. \<forall>e. clean_entry l \<noteq> Inl e \<Longrightarrow> \<exists>r. parse_loop ls c n = Inr r"
proof (induction ls arbitrary: c n)
  case Nil
  show ?case by simp
next
  case (Cons l ls)
  then obtain r where r: "clean_entry l = Inr r" by (cases "clean_entry l") auto
  from Cons show ?case by (cases r) (simp_all add: r)
qed

lemma parse_returns_without_empty_ids:
  assumes "\<forall>l \<in> set raw_lines.
     length (py_split (CHR ''|'') (py_strip l)) = 8 \<longrightarrow>
     py_split (CHR ''|'') (py_strip l) ! 0 \<noteq> [] \<and> py_split (CHR ''|'') (py_strip l) ! 2 \<noteq> []"
  shows "\<exists>r. parse_and_clean_data raw_lines = Inr r"
  unfolding parse_and_clean_data_def
proof (rule parse_loop_returns, intro ballI allI notI)
  fix l e assume "l \<in> set raw_lines" "clean_entry l = Inl e"
  with assms clean_entry_raises[of l e] show False by blast
qed

text \<open>
  Claim C2 says that \<open>parse_and_clean_data\<close> returns for every sequence of lines, also
  when the first or the third field of a line is empty. The code reads \<open>tid[0]\<close> and
  \<open>pid[0]\<close>: on a line of eight fields whose transaction id or product id is empty the
  index raises \<open>IndexError\<close>, which nothing catches, and no pair is returned.
\<close>

theorem parse_empty_id_raises:
  "parse_and_clean_data [''|2024-01-01|P1|Pen|1|2.5|C1|North''] = Inl IndexError \<and>
   parse_and_clean_data [''T1|2024-01-01||Pen|1|2.5|C1|North''] = Inl IndexError"
  by (simp add: parse_defs)

text \<open>
  Claim C3: whenever \<open>parse_and_clean_data\<close> returns, the number of cleaned records plus
  the invalid count is the number of input lines.
\<close>

theorem parse_counts_every_line:
  "parse_and_clean_data raw_lines = Inr (cleaned, invalid_count) \<Longrightarrow>
     length cleaned + invalid_count = length raw_lines"
  unfolding parse_and_clean_data_def by (drule parse_loop_counts) simp

theorem parse_counts_every_line_witness:
  "parse_and_clean_data [''T1|2024-01-01|P1|USB Cable|2|5.50|C1|North'',
       ''T2|2024-01-01|P2|Wireless Mouse|1|20.00|C2|South'', ''BADLINE''] =
   Inr ([\<lparr>TransactionID = ''T1'', Date = ''2024-01-01'', ProductID = ''P1'',
           ProductName = ''USB Cable'', Quantity = 2, UnitPrice = Fin (11 / 2),
           CustomerID = ''C1'', Region = ''North''\<rparr>,
         \<lparr>TransactionID = ''T2'', Date = ''2024-01-01'', ProductID = ''P2'',
           ProductName = ''Wireless Mouse'', Quantity = 1, UnitPrice = Fin 20,
           CustomerID = ''C2'', Region = ''South''\<rparr>], 1) \<and>
   length [\<lparr>TransactionID = ''T1'', Date = ''2024-01-01'', ProductID = ''P1'',
           ProductName = ''USB Cable'', Quantity = 2, UnitPrice = Fin (11 / 2),
           CustomerID = ''C1'', Region = ''North''\<rparr>,
         \<lparr>TransactionID = ''T2'', Date = ''2024-01-01'', ProductID = ''P2'',
           ProductName = ''Wireless Mouse'', Quantity = 1, UnitPrice = Fin 20,
           CustomerID = ''C2'', Region = ''South''\<rparr>] + 1 =
   length [''T1|2024-01-01|P1|USB Cable|2|5.50|C1|North'',
       ''T2|2024-01-01|P2|Wireless Mouse|1|20.00|C2|South'', ''BADLINE'']"
  using parse_counts_every_line [OF example_lines_parse] example_lines_parse by simp

text \<open>
  Every record the parser keeps has passed the checks of the code: the prefixes of both
  ids, a positive quantity, a customer and a region that are not blank, a product name
  without commas, and a price that is not \<open><= 0\<close>, which is either strictly
  positive or \<open>nan\<close>.
\<close>

lemma clean_entry_checked: "clean_entry entry = Inr (Some tx) \<Longrightarrow> passes_checks tx"
  unfolding clean_entry_def Let_def passes_checks_def
  by (auto simp: index0_def replace_char_def split: if_splits sum.splits option.splits list.splits)

lemma parse_loop_checked:
  "parse_loop ls c n = Inr (c', n') \<Longrightarrow> \<forall>tx \<in> set c. passes_checks tx \<Longrightarrow>
   \<forall>tx \<in> set c'. passes_checks tx"
proof (induction ls arbitrary: c n)
  case Nil
  then show ?case by simp
next
  case (Cons l ls)
  show ?case
  proof (cases "clean_entry l")
    case (Inl e)
    with Cons.prems show ?thesis by simp
  next
    case (Inr r)
    show ?thesis
    proof (cases r)
      case None
      with Inr Cons.prems have "parse_loop ls c (n + 1) = Inr (c', n')" by simp
      from Cons.IH[OF this Cons.prems(2)] show ?thesis .
    next
      case (Some tx)
      with Inr Cons.prems have step: "parse_loop ls (c @ [tx]) n = Inr (c', n')" by simp
      from Inr Some have "passes_checks tx" by (simp add: clean_entry_checked)
      with Cons.prems(2) have "\<forall>t \<in> set (c @ [tx]). passes_checks t" by simp
      from Cons.IH[OF step this] show ?thesis .
    qed
  qed
qed

lemma cleaned_records_checked:
  "parse_and_clean_data raw_lines = Inr (cleaned, invalid_count) \<Longrightarrow>
   \<forall>tx \<in> set cleaned. passes_checks tx"
  unfolding parse_and_clean_data_def by (drule parse_loop_checked) simp_all

lemma not_fle_zero: "\<not> fle p (Fin 0) \<Longrightarrow> p = NaN \<or> flt (Fin 0) p"
  by (cases p) auto

text \<open>
  Claim C4 says that every cleaned record has a unit price strictly greater than 0. The
  code rejects a price only when \<open>price <= 0\<close>; \<open>float("nan")\<close> succeeds and \<open>nan <= 0\<close>
  is false, so a line whose price field is \<open>nan\<close> is kept, with a unit price that is not
  greater than 0.
\<close>

theorem parse_accepts_nan_price:
  "parse_and_clean_data [''T1|2024-01-01|P1|Pen|1|nan|C1|North''] =
     Inr ([\<lparr>TransactionID = ''T1'', Date = ''2024-01-01'', ProductID = ''P1'',
             ProductName = ''Pen'', Quantity = 1, UnitPrice = NaN,
             CustomerID = ''C1'', Region = ''North''\<rparr>], 0) \<and>
   \<not> flt (Fin 0) NaN"
  by (simp add: parse_defs)

section \<open>The region filter\<close>

text \<open>
  Claim C8 says that the filter compares trimmed on both sides, so that a record whose
  region carries white space around the name is kept. The code trims the selected region
  only. The line below parses to a record of region \<open>" North"\<close>, which matches
  \<open>"North"\<close> in the claim's comparison and which the filter drops.
\<close>

theorem region_filter_untrimmed_counterexample:
  "parse_and_clean_data [''T1|2024-01-01|P1|Pen|1|2.5|C1| North''] =
     Inr ([\<lparr>TransactionID = ''T1'', Date = ''2024-01-01'', ProductID = ''P1'',
             ProductName = ''Pen'', Quantity = 1, UnitPrice = Fin (5 / 2),
             CustomerID = ''C1'', Region = '' North''\<rparr>], 0) \<and>
   spec_region_match '' North'' ''North'' \<and>
   fst (validate_and_filter_sales
          [\<lparr>TransactionID = ''T1'', Date = ''2024-01-01'', ProductID = ''P1'',
             ProductName = ''Pen'', Quantity = 1, UnitPrice = Fin (5 / 2),
             CustomerID = ''C1'', Region = '' North''\<rparr>] (Some ''North'')) \<noteq>
   filter (\<lambda>row. spec_region_match (Region row) ''North'')
          [\<lparr>TransactionID = ''T1'', Date = ''2024-01-01'', ProductID = ''P1'',
             ProductName = ''Pen'', Quantity = 1, UnitPrice = Fin (5 / 2),
             CustomerID = ''C1'', Region = '' North''\<rparr>]"
  by (simp add: parse_defs validate_and_filter_sales_def spec_region_match_def)

text \<open>
  Claim C8 as amended: on a non-empty collection and a given region, the filter keeps,
  in order, exactly the records whose lower-cased region equals the trimmed and
  lower-cased selected region, and the summary reports the flag, that key and both
  counts; with no region given the input comes back unchanged, with a summary of no
  filter and the record count.
\<close>

theorem region_filter_lowercase_match:
  "cleaned_data \<noteq> [] \<Longrightarrow>
     validate_and_filter_sales cleaned_data (Some sel) =
       (filter (\<lambda>row. py_lower (Region row) = py_lower (py_strip sel)) cleaned_data,
        [(''filter_applied'', VBool True), (''region'', VStr (py_lower (py_strip sel))),
         (''records_before_filter'', VInt (int (length cleaned_data))),
         (''records_after_filter'', VInt (int (length
            (filter (\<lambda>row. py_lower (Region row) = py_lower (py_strip sel)) cleaned_data))))])
     \<and> validate_and_filter_sales cleaned_data None =
       (cleaned_data, [(''filter_applied'', VBool False),
                       (''total_records'', VInt (int (length cleaned_data)))])"
  by (simp add: validate_and_filter_sales_def Let_def)

theorem region_filter_lowercase_match_witness:
  "validate_and_filter_sales
     [\<lparr>TransactionID = ''T1'', Date = ''2024-01-01'', ProductID = ''P1'',
        ProductName = ''USB Cable'', Quantity = 2, UnitPrice = Fin (11 / 2),
        CustomerID = ''C1'', Region = ''North''\<rparr>,
      \<lparr>TransactionID = ''T2'', Date = ''2024-01-01'', ProductID = ''P2'',
        ProductName = ''Wireless Mouse'', Quantity = 1, UnitPrice = Fin 20,
        CustomerID = ''C2'', Region = ''South''\<rparr>] (Some '' NORTH '') =
     ([\<lparr>TransactionID = ''T1'', Date = ''2024-01-01'', ProductID = ''P1'',
        ProductName = ''USB Cable'', Quantity = 2, UnitPrice = Fin (11 / 2),
        CustomerID = ''C1'', Region = ''North''\<rparr>],
      [(''filter_applied'', VBool True), (''region'', VStr ''north''),
       (''records_before_filter'', VInt 2), (''records_after_filter'', VInt 1)])"
proof -
  have key: "py_lower (py_strip '' NORTH '') = ''north''" by code_simp
  have north: "py_lower ''North'' = ''north''" by code_simp
  have south: "py_lower ''South'' = ''south''" by code_simp
  show ?thesis
    using region_filter_lowercase_match [of
     "[\<lparr>TransactionID = ''T1'', Date = ''2024-01-01'', ProductID = ''P1'',
        ProductName = ''USB Cable'', Quantity = 2, UnitPrice = Fin (11 / 2),
        CustomerID = ''C1'', Region = ''North''\<rparr>,
      \<lparr>TransactionID = ''T2'', Date = ''2024-01-01'', ProductID = ''P2'',
        ProductName = ''Wireless Mouse'', Quantity = 1, UnitPrice = Fin 20,
        CustomerID = ''C2'', Region = ''South''\<rparr>]" "'' NORTH ''"]
    by (simp add: key north south)
qed

section \<open>Float sums\<close>

lemma fadd_commute: "fadd a b = fadd b a"
  by (cases a; cases b) simp_all

lemma fadd_assoc: "fadd (fadd a b) c = fadd a (fadd b c)"
  by (cases a; cases b; cases c) simp_all

lemma fadd_left_commute: "fadd a (fadd b c) = fadd b (fadd a c)"
  by (cases a; cases b; cases c) simp_all

lemma fadd_zero [simp]: "fadd (Fin 0) a = a" "fadd a (Fin 0) = a"
  by (cases a; simp)+

lemma foldl_fadd: "foldl fadd a xs = fadd a (foldl fadd (Fin 0) xs)"
proof (induction xs arbitrary: a)
  case Nil
  show ?case by simp
next
  case (Cons x xs)
  have "foldl fadd a (x # xs) = fadd (fadd a x) (foldl fadd (Fin 0) xs)"
    using Cons.IH[of "fadd a x"] by simp
  also have "\<dots> = fadd a (fadd x (foldl fadd (Fin 0) xs))" by (rule fadd_assoc)
  also have "fadd x (foldl fadd (Fin 0) xs) = foldl fadd (Fin 0) (x # xs)"
    using Cons.IH[of x] by simp
  finally show ?case .
qed

lemma py_sum_Nil [simp]: "py_sum [] = Fin 0"
  by (simp add: py_sum_def)

lemma py_sum_Cons [simp]: "py_sum (x # xs) = fadd x (py_sum xs)"
  unfolding py_sum_def using foldl_fadd[of x xs] by simp

lemma revenue_loop_sum: "revenue_loop txs t = fadd t (py_sum (map amount txs))"
  by (induction txs arbitrary: t) (simp_all add: fadd_assoc)

lemma total_revenue_sum: "calculate_total_revenue txs = py_sum (map amount txs)"
  by (simp add: calculate_total_revenue_def revenue_loop_sum)

lemma pos_fadd: "flt (Fin 0) a \<Longrightarrow> flt (Fin 0) b \<Longrightarrow> flt (Fin 0) (fadd a b)"
  by (cases a; cases b) simp_all

lemma pos_nonzero: "flt (Fin 0) a \<Longrightarrow> a \<noteq> Fin 0"
  by (cases a) auto

lemma pos_amount: "spec_transaction_invariant tx \<Longrightarrow> flt (Fin 0) (amount tx)"
  by (cases "UnitPrice tx")
     (simp_all add: spec_transaction_invariant_def amount_def float_of_int_def fsign_def)

lemma pos_sum:
  "xs \<noteq> [] \<Longrightarrow> \<forall>x \<in> set xs. flt (Fin 0) x \<Longrightarrow> flt (Fin 0) (py_sum xs)"
proof (induction xs)
  case Nil
  then show ?case by simp
next
  case (Cons x xs)
  show ?case
  proof (cases "xs = []")
    case True
    with Cons.prems show ?thesis by simp
  next
    case False
    with Cons show ?thesis by (simp add: pos_fadd)
  qed
qed

lemma valid_revenue_positive:
  "txs \<noteq> [] \<Longrightarrow> \<forall>t \<in> set txs. spec_transaction_invariant t \<Longrightarrow>
   flt (Fin 0) (calculate_total_revenue txs)"
  unfolding total_revenue_sum by (rule pos_sum) (auto simp: pos_amount)

section \<open>Sales by region add up\<close>

lemma update_sum_absent:
  "map_of al k = None \<Longrightarrow>
   py_sum (map (\<lambda>x. tally_sales (snd x)) (AList.update k v al)) =
   fadd (py_sum (map (\<lambda>x. tally_sales (snd x)) al)) (tally_sales v)"
proof (induction al)
  case Nil
  show ?case by simp
next
  case (Cons p al)
  then show ?case by (cases p) (auto simp: fadd_assoc split: if_splits)
qed

lemma update_sum_present:
  "map_of al k = Some e \<Longrightarrow> tally_sales v = fadd (tally_sales e) a \<Longrightarrow>
   py_sum (map (\<lambda>x. tally_sales (snd x)) (AList.update k v al)) =
   fadd (py_sum (map (\<lambda>x. tally_sales (snd x)) al)) a"
proof (induction al)
  case Nil
  then show ?case by simp
next
  case (Cons p al)
  show ?case
  proof (cases "fst p = k")
    case True
    with Cons.prems have "snd p = e" by (cases p) simp
    with True Cons.prems show ?thesis
      by (simp add: fadd_assoc fadd_commute fadd_left_commute)
  next
    case False
    with Cons.prems have "map_of al k = Some e" by (cases p) simp
    from Cons.IH[OF this Cons.prems(2)] False show ?thesis
      by (simp add: fadd_assoc)
  qed
qed

lemma region_loop_sum:
  "py_sum (map (\<lambda>x. tally_sales (snd x)) (region_loop txs rd)) =
   fadd (py_sum (map (\<lambda>x. tally_sales (snd x)) rd)) (py_sum (map amount txs))"
proof (induction txs arbitrary: rd)
  case Nil
  show ?case by simp
next
  case (Cons tx txs)
  show ?case
  proof (cases "map_of rd (Region tx)")
    case None
    then show ?thesis
      using Cons.IH update_sum_absent[OF None]
      by (simp add: Let_def fadd_assoc)
  next
    case (Some e)
    then show ?thesis
      using Cons.IH update_sum_present[OF Some, of _ "amount tx"]
      by (simp add: Let_def fadd_assoc)
  qed
qed

lemma percentage_loop_total:
  "percentage_loop overall rd = Inr rs \<Longrightarrow>
   map (\<lambda>x. total_sales (snd x)) rs = map (\<lambda>x. tally_sales (snd x)) rd \<and>
   (\<forall>e \<in> set rs. \<exists>q. fdiv (total_sales (snd e)) overall = Inr q \<and>
                       percentage (snd e) = py_round2 (fmul q (Fin 100)))"
proof (induction overall rd arbitrary: rs rule: percentage_loop.induct)
  case (1 overall)
  then show ?case by simp
next
  case (2 overall r t rest)
  from "2.prems" obtain q where q: "fdiv (tally_sales t) overall = Inr q"
    by (auto split: sum.splits)
  with "2.prems" obtain entries where e: "percentage_loop overall rest = Inr entries"
    by (auto split: sum.splits)
  from "2.IH"[OF q e] q e "2.prems" show ?case by auto
qed

lemma percentage_loop_returns:
  "rd = [] \<or> overall \<noteq> Fin 0 \<Longrightarrow> \<exists>rs. percentage_loop overall rd = Inr rs"
proof (induction rd)
  case Nil
  show ?case by simp
next
  case (Cons p rd)
  then have nz: "overall \<noteq> Fin 0" by simp
  with Cons.IH obtain rs where "percentage_loop overall rd = Inr rs" by auto
  with nz show ?case by (cases p) (simp add: fdiv_def)
qed

lemma insert_desc_sum:
  "py_sum (map f (insert_desc key x ys)) = fadd (f x) (py_sum (map f ys))"
  by (induction ys) (simp_all add: fadd_left_commute)

lemma sorted_desc_sum: "py_sum (map f (sorted_desc key xs)) = py_sum (map f xs)"
  unfolding sorted_desc_def by (induction xs) (simp_all add: insert_desc_sum)

lemma set_insert_desc: "set (insert_desc key x ys) = insert x (set ys)"
  by (induction ys) auto

lemma set_sorted_desc: "set (sorted_desc key xs) = set xs"
  unfolding sorted_desc_def by (induction xs) (simp_all add: set_insert_desc)

text \<open>
  The function returns whenever the collection is empty or the overall revenue is not
  zero, and every percentage is then the region's total divided by the overall revenue,
  times 100, rounded. In the exact arithmetic of this model the totals of the regions
  add up to the overall revenue; in the arithmetic of doubles the two sums are taken in
  different orders, and how far apart they may lie is not a statement of this model.
\<close>

lemma region_sales_general:
  assumes "txs = [] \<or> calculate_total_revenue txs \<noteq> Fin 0"
  shows "\<exists>rs. region_wise_sales txs = Inr rs \<and>
           py_sum (map (\<lambda>x. total_sales (snd x)) rs) = calculate_total_revenue txs \<and>
           (\<forall>e \<in> set rs. \<exists>q. fdiv (total_sales (snd e)) (calculate_total_revenue txs) = Inr q \<and>
                       percentage (snd e) = py_round2 (fmul q (Fin 100)))"
proof -
  let ?overall = "calculate_total_revenue txs"
  let ?rd = "region_loop txs []"
  have "?rd = [] \<or> ?overall \<noteq> Fin 0" using assms by auto
  then obtain wp where wp: "percentage_loop ?overall ?rd = Inr wp"
    using percentage_loop_returns by blast
  note pl = percentage_loop_total[OF wp]
  have rws: "region_wise_sales txs = Inr (sorted_desc (\<lambda>x. total_sales (snd x)) wp)"
    by (simp add: region_wise_sales_def wp)
  have "py_sum (map (\<lambda>x. total_sales (snd x)) (sorted_desc (\<lambda>x. total_sales (snd x)) wp))
        = py_sum (map (\<lambda>x. tally_sales (snd x)) ?rd)"
    using pl by (simp add: sorted_desc_sum)
  also have "\<dots> = ?overall"
    by (simp add: region_loop_sum total_revenue_sum)
  finally show ?thesis using rws pl by (simp add: set_sorted_desc)
qed

lemma example_region_sales:
  "region_wise_sales [example_usb, example_mouse] = Inr
     [(''South'', \<lparr>total_sales = Fin 20, transaction_count = 1, percentage = Fin (1613 / 25)\<rparr>),
      (''North'', \<lparr>total_sales = Fin 11, transaction_count = 1, percentage = Fin (887 / 25)\<rparr>)]"
  unfolding example_usb_def example_mouse_def by code_simp

lemma example_revenue: "calculate_total_revenue [example_usb, example_mouse] = Fin 31"
  unfolding example_usb_def example_mouse_def by code_simp

lemma example_invariant:
  "spec_transaction_invariant example_usb" "spec_transaction_invariant example_mouse"
  "spec_transaction_invariant example_desk"
  by (simp_all add: spec_transaction_invariant_def example_usb_def example_mouse_def example_desk_def)

text \<open>
  Claim C10: \<open>region_wise_sales\<close> never divides by zero: on the empty collection it
  returns the empty mapping, and on a non-empty collection of records that satisfy the
  invariant the overall revenue, the divisor, is strictly positive and the function
  returns.
\<close>

theorem region_sales_never_divides_by_zero:
  "region_wise_sales [] = Inr [] \<and>
   (txs \<noteq> [] \<and> (\<forall>t \<in> set txs. spec_transaction_invariant t) \<longrightarrow>
      flt (Fin 0) (calculate_total_revenue txs) \<and> (\<exists>rs. region_wise_sales txs = Inr rs))"
proof (intro conjI impI)
  show "region_wise_sales [] = Inr []"
    by (simp add: region_wise_sales_def sorted_desc_def calculate_total_revenue_def)
next
  assume a: "txs \<noteq> [] \<and> (\<forall>t\<in>set txs. spec_transaction_invariant t)"
  then show "flt (Fin 0) (calculate_total_revenue txs)"
    by (simp add: valid_revenue_positive)
  then have "calculate_total_revenue txs \<noteq> Fin 0" by (rule pos_nonzero)
  then show "\<exists>rs. region_wise_sales txs = Inr rs"
    using region_sales_general[of txs] by blast
qed

theorem region_sales_never_divides_by_zero_witness:
  "[example_usb, example_mouse] \<noteq> [] \<and>
   spec_transaction_invariant example_usb \<and> spec_transaction_invariant example_mouse \<and>
   region_wise_sales [] = Inr [] \<and>
   calculate_total_revenue [example_usb, example_mouse] = Fin 31 \<and>
   flt (Fin 0) (calculate_total_revenue [example_usb, example_mouse]) \<and>
   region_wise_sales [example_usb, example_mouse] = Inr
     [(''South'', \<lparr>total_sales = Fin 20, transaction_count = 1, percentage = Fin (1613 / 25)\<rparr>),
      (''North'', \<lparr>total_sales = Fin 11, transaction_count = 1, percentage = Fin (887 / 25)\<rparr>)]"
  using region_sales_never_divides_by_zero [of "[example_usb, example_mouse]"]
  by (simp add: example_invariant example_region_sales example_revenue)

section \<open>Top-selling and low-performing products\<close>

lemma product_loop_distinct:
  "distinct (map fst tracker) \<Longrightarrow> distinct (map fst (product_loop txs tracker))"
  by (induction txs arbitrary: tracker) (simp_all add: Let_def distinct_update)

lemma product_loop_quantity:
  "distinct (map fst tracker) \<Longrightarrow> (name, q, r) \<in> set (product_loop txs tracker) \<Longrightarrow>
   q = (case map_of tracker name of None \<Rightarrow> 0 | Some v \<Rightarrow> fst v) +
       sum_list (map Quantity (filter (\<lambda>t. ProductName t = name) txs))"
proof (induction txs arbitrary: tracker)
  case Nil
  then show ?case by simp
next
  case (Cons tx txs)
  let ?cur = "case map_of tracker (ProductName tx) of None \<Rightarrow> (0, Fin 0) | Some v \<Rightarrow> v"
  let ?tr = "AList.update (ProductName tx)
               (fst ?cur + Quantity tx, fadd (snd ?cur) (amount tx)) tracker"
  have d: "distinct (map fst ?tr)" using Cons.prems(1) by (rule distinct_update)
  have m: "(name, q, r) \<in> set (product_loop txs ?tr)"
    using Cons.prems(2) by (simp add: Let_def)
  from Cons.IH[OF d m] show ?case
    by (auto simp: update_conv' split: option.splits)
qed

lemma product_entry_total:
  assumes "x \<in> set (product_loop txs [])"
  shows "fst (snd x) = sum_list (map Quantity (filter (\<lambda>t. ProductName t = fst x) txs))"
proof -
  obtain name q r where x: "x = (name, q, r)" by (cases x) auto
  with assms product_loop_quantity[of "[]" name q r txs] show ?thesis by simp
qed

lemma py_take_subset: "set (py_take n xs) \<subseteq> set xs"
  by (auto simp: py_take_def dest: in_set_takeD)

lemma py_take_all: "int (length xs) \<le> n \<Longrightarrow> py_take n xs = xs"
  by (simp add: py_take_def)

lemma same_name_same_entry:
  "distinct (map fst al) \<Longrightarrow> x \<in> set al \<Longrightarrow> y \<in> set al \<Longrightarrow> fst x = fst y \<Longrightarrow> x = y"
  by (metis eq_key_imp_eq_value prod.collapse)

lemma low_in_tracker:
  "x \<in> set (low_performing_products txs threshold) \<Longrightarrow> x \<in> set (product_loop txs [])"
  by (simp add: low_performing_products_def Let_def)

lemma top_in_tracker:
  assumes "x \<in> set (top_selling_products txs n)"
  shows "x \<in> set (product_loop txs [])"
proof -
  from assms have "x \<in> set (sort_key (\<lambda>x. - fst (snd x)) (product_loop txs []))"
    using py_take_subset[of n "sort_key (\<lambda>x. - fst (snd x)) (product_loop txs [])"]
    by (auto simp: top_selling_products_def Let_def)
  then show ?thesis by simp
qed

lemma low_names:
  assumes "fst x \<in> fst ` set (low_performing_products txs threshold)"
    and x: "x \<in> set (product_loop txs [])"
  shows "fst (snd x) < threshold"
proof -
  from assms(1) obtain y where
    y: "y \<in> set (product_loop txs [])" "fst (snd y) < threshold" "fst y = fst x"
    by (auto simp: low_performing_products_def Let_def)
  have "distinct (map fst (product_loop txs []))" by (simp add: product_loop_distinct)
  from same_name_same_entry[OF this x y(1)] y show ?thesis by simp
qed

text \<open>
  Claim C9: every entry of the low-performing list carries the total quantity of its
  product, which is strictly below the threshold, and the list is ascending in
  quantity; no product of the top-selling list whose quantity reaches the threshold is in
  the low-performing list; and when \<open>n\<close> is at least the number of distinct products the
  top-selling list holds every product, of which exactly those below the threshold are
  in the low-performing list.
\<close>

theorem low_and_top_products_consistent:
  "(\<forall>x \<in> set (low_performing_products txs threshold).
      fst (snd x) = sum_list (map Quantity (filter (\<lambda>t. ProductName t = fst x) txs)) \<and>
      fst (snd x) < threshold) \<and>
   sorted (map (\<lambda>x. fst (snd x)) (low_performing_products txs threshold)) \<and>
   (\<forall>x \<in> set (top_selling_products txs n).
      fst (snd x) = sum_list (map Quantity (filter (\<lambda>t. ProductName t = fst x) txs)) \<and>
      (threshold \<le> fst (snd x) \<longrightarrow>
         fst x \<notin> fst ` set (low_performing_products txs threshold))) \<and>
   (int (length (product_loop txs [])) \<le> n \<longrightarrow>
      set (top_selling_products txs n) = set (product_loop txs []) \<and>
      (\<forall>x \<in> set (top_selling_products txs n).
         (fst x \<in> fst ` set (low_performing_products txs threshold)) =
         (fst (snd x) < threshold)))"
proof (intro conjI ballI impI)
  fix x assume x: "x \<in> set (low_performing_products txs threshold)"
  then show "fst (snd x) < threshold"
    by (simp add: low_performing_products_def Let_def)
  from x show "fst (snd x) = sum_list (map Quantity (filter (\<lambda>t. ProductName t = fst x) txs))"
    by (intro product_entry_total low_in_tracker)
next
  show "sorted (map (\<lambda>x. fst (snd x)) (low_performing_products txs threshold))"
    by (simp add: low_performing_products_def Let_def)
next
  fix x assume x: "x \<in> set (top_selling_products txs n)"
  then show "fst (snd x) = sum_list (map Quantity (filter (\<lambda>t. ProductName t = fst x) txs))"
    by (intro product_entry_total top_in_tracker)
next
  fix x assume x: "x \<in> set (top_selling_products txs n)" and ge: "threshold \<le> fst (snd x)"
  from x have "x \<in> set (product_loop txs [])" by (rule top_in_tracker)
  with ge show "fst x \<notin> fst ` set (low_performing_products txs threshold)"
    using low_names[of x txs threshold] by auto
next
  assume n: "int (length (product_loop txs [])) \<le> n"
  then show all: "set (top_selling_products txs n) = set (product_loop txs [])"
    by (simp add: top_selling_products_def Let_def py_take_all)
  fix x assume "x \<in> set (top_selling_products txs n)"
  with all have x: "x \<in> set (product_loop txs [])" by simp
  show "(fst x \<in> fst ` set (low_performing_products txs threshold)) = (fst (snd x) < threshold)"
  proof
    assume "fst x \<in> fst ` set (low_performing_products txs threshold)"
    then show "fst (snd x) < threshold" using low_names x by blast
  next
    assume "fst (snd x) < threshold"
    with x have "x \<in> set (low_performing_products txs threshold)"
      by (simp add: low_performing_products_def Let_def)
    then show "fst x \<in> fst ` set (low_performing_products txs threshold)" by (rule imageI)
  qed
qed

lemma example_products:
  "top_selling_products [example_usb, example_mouse, example_desk] 5 =
     [(''Desk'', 12, Fin 240), (''USB Cable'', 2, Fin 11), (''Wireless Mouse'', 1, Fin 20)]"
  "low_performing_products [example_usb, example_mouse, example_desk] 10 =
     [(''Wireless Mouse'', 1, Fin 20), (''USB Cable'', 2, Fin 11)]"
  "product_loop [example_usb, example_mouse, example_desk] [] =
     [(''USB Cable'', 2, Fin 11), (''Wireless Mouse'', 1, Fin 20), (''Desk'', 12, Fin 240)]"
  unfolding example_usb_def example_mouse_def example_desk_def by code_simp+

theorem low_and_top_products_consistent_witness:
  "top_selling_products [example_usb, example_mouse, example_desk] 5 =
     [(''Desk'', 12, Fin 240), (''USB Cable'', 2, Fin 11), (''Wireless Mouse'', 1, Fin 20)] \<and>
   low_performing_products [example_usb, example_mouse, example_desk] 10 =
     [(''Wireless Mouse'', 1, Fin 20), (''USB Cable'', 2, Fin 11)] \<and>
   int (length (product_loop [example_usb, example_mouse, example_desk] [])) \<le> 5 \<and>
   (10::int) \<le> 12 \<and>
   ''Desk'' \<notin> fst ` set (low_performing_products [example_usb, example_mouse, example_desk] 10)"
proof -
  note rule =
    low_and_top_products_consistent [of "[example_usb, example_mouse, example_desk]" 10 5]
  have desk: "(''Desk'', 12, Fin 240) \<in>
      set (top_selling_products [example_usb, example_mouse, example_desk] 5)"
    by (simp add: example_products)
  from rule desk have "(10::int) \<le> fst (snd (''Desk'', 12::int, Fin 240)) \<longrightarrow>
      fst (''Desk'', 12::int, Fin 240) \<notin>
        fst ` set (low_performing_products [example_usb, example_mouse, example_desk] 10)"
    by blast
  then have "''Desk'' \<notin>
      fst ` set (low_performing_products [example_usb, example_mouse, example_desk] 10)"
    by simp
  then show ?thesis by (simp add: example_products del: product_loop.simps)
qed

section \<open>Enrichment follows the rule order\<close>

lemma enrich_loop_map: "enrich_loop txs acc = acc @ map enrich_one txs"
  by (induction txs arbitrary: acc) simp_all

lemma enrich_sales_data_map: "enrich_sales_data txs pm = map enrich_one txs"
  by (simp add: enrich_sales_data_def enrich_loop_map)

lemma api_fields_first_match:
  "api_fields name =
     (case spec_first_match name spec_rules of
        Some (c, b, r) \<Rightarrow> (c, b, r, True)
      | None \<Rightarrow> (''Unknown'', ''Unknown'', Fin 0, False))"
  by (simp add: api_fields_def spec_rules_def)

lemma api_match_keywords:
  "snd (snd (snd (api_fields name))) = list_ex (\<lambda>k. py_in k name) spec_keywords"
  by (simp add: api_fields_def spec_keywords_def spec_rules_def)

lemma truncate_enrich_one: "transaction.truncate (enrich_one tx) = tx"
  by (simp add: enrich_one_def transaction.truncate_def Let_def)

text \<open>
  Claim C7: \<open>enrich_sales_data\<close> returns one record for each transaction, in the same
  order and with the transaction's own fields unchanged; the match flag of a record is
  true exactly when the lower-cased product name contains one of the keywords; and the
  category, brand, rating and flag are those of the first rule, in the order of the
  rule list, one of whose keywords the name contains, or the defaults when there is none.
  The catalog mapping has no influence.
\<close>

theorem enrichment_first_rule_wins:
  "length (enrich_sales_data txs pm) = length txs \<and>
   (\<forall>i < length txs.
      transaction.truncate (enrich_sales_data txs pm ! i) = txs ! i \<and>
      API_Match (enrich_sales_data txs pm ! i) =
        list_ex (\<lambda>k. py_in k (py_lower (ProductName (txs ! i)))) spec_keywords \<and>
      (API_Category (enrich_sales_data txs pm ! i), API_Brand (enrich_sales_data txs pm ! i),
       API_Rating (enrich_sales_data txs pm ! i), API_Match (enrich_sales_data txs pm ! i)) =
        (case spec_first_match (py_lower (ProductName (txs ! i))) spec_rules of
           Some (c, b, r) \<Rightarrow> (c, b, r, True)
         | None \<Rightarrow> (''Unknown'', ''Unknown'', Fin 0, False)))"
proof (intro conjI allI impI)
  show "length (enrich_sales_data txs pm) = length txs"
    by (simp add: enrich_sales_data_map)
next
  fix i assume i: "i < length txs"
  then have at: "enrich_sales_data txs pm ! i = enrich_one (txs ! i)"
    by (simp add: enrich_sales_data_map)
  show "transaction.truncate (enrich_sales_data txs pm ! i) = txs ! i"
    by (simp add: at truncate_enrich_one)
  show "API_Match (enrich_sales_data txs pm ! i) =
        list_ex (\<lambda>k. py_in k (py_lower (ProductName (txs ! i)))) spec_keywords"
    unfolding at using api_match_keywords[of "py_lower (ProductName (txs ! i))"]
    by (simp add: enrich_one_def Let_def)
  show "(API_Category (enrich_sales_data txs pm ! i), API_Brand (enrich_sales_data txs pm ! i),
       API_Rating (enrich_sales_data txs pm ! i), API_Match (enrich_sales_data txs pm ! i)) =
        (case spec_first_match (py_lower (ProductName (txs ! i))) spec_rules of
           Some (c, b, r) \<Rightarrow> (c, b, r, True)
         | None \<Rightarrow> (''Unknown'', ''Unknown'', Fin 0, False))"
    unfolding at using api_fields_first_match[of "py_lower (ProductName (txs ! i))"]
    by (simp add: enrich_one_def Let_def)
qed

lemma example_enrichment:
  "enrich_sales_data [example_usb, example_mouse, example_desk] [] =
     [\<lparr>TransactionID = ''T1'', Date = ''2024-01-01'', ProductID = ''P1'',
        ProductName = ''USB Cable'', Quantity = 2, UnitPrice = Fin (11 / 2),
        CustomerID = ''C1'', Region = ''North'', API_Category = ''mobile-accessories'',
        API_Brand = ''Beats'', API_Rating = Fin (424 / 100), API_Match = True\<rparr>,
      \<lparr>TransactionID = ''T2'', Date = ''2024-01-01'', ProductID = ''P2'',
        ProductName = ''Wireless Mouse'', Quantity = 1, UnitPrice = Fin 20,
        CustomerID = ''C2'', Region = ''South'', API_Category = ''mobile-accessories'',
        API_Brand = ''TechGear'', API_Rating = Fin (443 / 100), API_Match = True\<rparr>,
      \<lparr>TransactionID = ''T3'', Date = ''2024-01-02'', ProductID = ''P3'',
        ProductName = ''Desk'', Quantity = 12, UnitPrice = Fin 20,
        CustomerID = ''C2'', Region = ''South'', API_Category = ''Unknown'',
        API_Brand = ''Unknown'', API_Rating = Fin 0, API_Match = False\<rparr>]"
  unfolding example_usb_def example_mouse_def example_desk_def by code_simp

lemma example_first_match:
  "spec_first_match (py_lower ''USB Cable'') spec_rules =
     Some (''mobile-accessories'', ''Beats'', Fin (424 / 100))"
  "spec_first_match (py_lower ''Desk'') spec_rules = None"
  "list_ex (\<lambda>k. py_in k (py_lower ''USB Cable'')) spec_keywords"
  "\<not> list_ex (\<lambda>k. py_in k (py_lower ''Desk'')) spec_keywords"
  by code_simp+

lemma example_names:
  "ProductName example_usb = ''USB Cable''" "ProductName example_desk = ''Desk''"
  by (simp_all add: example_usb_def example_desk_def)

theorem enrichment_first_rule_wins_witness:
  "length (enrich_sales_data [example_usb, example_mouse, example_desk] []) = 3 \<and>
   (0::nat) < length [example_usb, example_mouse, example_desk] \<and>
   (2::nat) < length [example_usb, example_mouse, example_desk] \<and>
   spec_first_match (py_lower (ProductName example_usb)) spec_rules =
     Some (''mobile-accessories'', ''Beats'', Fin (424 / 100)) \<and>
   API_Brand (enrich_sales_data [example_usb, example_mouse, example_desk] [] ! 0) = ''Beats'' \<and>
   API_Match (enrich_sales_data [example_usb, example_mouse, example_desk] [] ! 0) \<and>
   spec_first_match (py_lower (ProductName example_desk)) spec_rules = None \<and>
   API_Brand (enrich_sales_data [example_usb, example_mouse, example_desk] [] ! 2) = ''Unknown'' \<and>
   \<not> API_Match (enrich_sales_data [example_usb, example_mouse, example_desk] [] ! 2)"
proof -
  let ?e = "enrich_sales_data [example_usb, example_mouse, example_desk] []"
  note rule = enrichment_first_rule_wins [of "[example_usb, example_mouse, example_desk]" "[]"]
  have len: "length ?e = 3" using rule by simp
  have first: "(API_Category (?e ! 0), API_Brand (?e ! 0), API_Rating (?e ! 0), API_Match (?e ! 0))
      = (''mobile-accessories'', ''Beats'', Fin (424 / 100), True)"
    using rule [THEN conjunct2, rule_format, of 0]
    by (simp add: example_names example_first_match)
  have third: "(API_Category (?e ! 2), API_Brand (?e ! 2), API_Rating (?e ! 2), API_Match (?e ! 2))
      = (''Unknown'', ''Unknown'', Fin 0, False)"
    using rule [THEN conjunct2, rule_format, of 2]
    by (simp add: example_names example_first_match)
  show ?thesis
    using len first third by (simp add: example_names example_first_match)
qed

section \<open>The peak day\<close>

lemma counts_after_update:
  assumes "\<forall>e \<in> set al. P (snd e)" "P v"
  shows "\<forall>e \<in> set (AList.update k v al). P (snd e)"
  using assms by (induction al) auto

lemma flt_irrefl: "\<not> flt a a"
  by (cases a) auto

lemma flt_asym: "flt a b \<Longrightarrow> \<not> flt b a"
  by (cases a; cases b) auto

lemma flt_trans: "flt a b \<Longrightarrow> flt b c \<Longrightarrow> flt a c"
  by (cases a; cases b; cases c) auto

lemma le_flt_trans: "a \<noteq> NaN \<Longrightarrow> \<not> flt b a \<Longrightarrow> flt b c \<Longrightarrow> flt a c"
  by (cases a; cases b; cases c) auto

lemma peak_loop_unchanged:
  "\<forall>e \<in> set ds. \<not> flt pr (revenue (snd e)) \<Longrightarrow> peak_loop ds (pd, pr, pc) = (pd, pr, pc)"
  by (induction ds) auto

lemma peak_loop_first_max:
  assumes "\<forall>e \<in> set ds. revenue (snd e) \<noteq> NaN" "\<exists>e \<in> set ds. flt pr (revenue (snd e))"
  shows "\<exists>pre e post. ds = pre @ e # post \<and>
           peak_loop ds (pd, pr, pc) = (Some (fst e), revenue (snd e), day_count (snd e)) \<and>
           flt pr (revenue (snd e)) \<and>
           (\<forall>x \<in> set pre. flt (revenue (snd x)) (revenue (snd e))) \<and>
           (\<forall>x \<in> set post. \<not> flt (revenue (snd e)) (revenue (snd x)))"
  using assms
proof (induction ds arbitrary: pd pr pc)
  case Nil
  then show ?case by simp
next
  case (Cons a ds)
  obtain d v where a: "a = (d, v)" by (cases a)
  from Cons.prems(1) have nn: "\<forall>e \<in> set ds. revenue (snd e) \<noteq> NaN" and nv: "revenue v \<noteq> NaN"
    by (simp_all add: a)
  show ?case
  proof (cases "flt pr (revenue v)")
    case True
    then have step: "peak_loop (a # ds) (pd, pr, pc) = peak_loop ds (Some d, revenue v, day_count v)"
      by (simp add: a)
    show ?thesis
    proof (cases "\<exists>e \<in> set ds. flt (revenue v) (revenue (snd e))")
      case greater: True
      from Cons.IH[OF nn greater, of "Some d" "day_count v"]
      obtain pre e post where r: "ds = pre @ e # post"
        "peak_loop ds (Some d, revenue v, day_count v) =
           (Some (fst e), revenue (snd e), day_count (snd e))"
        "flt (revenue v) (revenue (snd e))"
        "\<forall>x \<in> set pre. flt (revenue (snd x)) (revenue (snd e))"
        "\<forall>x \<in> set post. \<not> flt (revenue (snd e)) (revenue (snd x))"
        by blast
      have "a # ds = (a # pre) @ e # post" using r(1) by simp
      moreover have "flt pr (revenue (snd e))" using True r(3) by (rule flt_trans)
      moreover have "\<forall>x \<in> set (a # pre). flt (revenue (snd x)) (revenue (snd e))"
        using r(3,4) by (simp add: a)
      moreover have "peak_loop (a # ds) (pd, pr, pc) =
          (Some (fst e), revenue (snd e), day_count (snd e))"
        using step r(2) by simp
      ultimately show ?thesis
        using r(5) by (intro exI[of _ "a # pre"] exI[of _ e] exI[of _ post] conjI)
    next
      case none: False
      then have "peak_loop ds (Some d, revenue v, day_count v) = (Some d, revenue v, day_count v)"
        by (intro peak_loop_unchanged) simp
      with step have "peak_loop (a # ds) (pd, pr, pc) =
          (Some (fst a), revenue (snd a), day_count (snd a))" by (simp add: a)
      moreover have "a # ds = [] @ a # ds" by simp
      moreover have "flt pr (revenue (snd a))" using True by (simp add: a)
      moreover have "\<forall>x \<in> set ds. \<not> flt (revenue (snd a)) (revenue (snd x))"
        using none by (simp add: a)
      ultimately have "a # ds = [] @ a # ds \<and>
          peak_loop (a # ds) (pd, pr, pc) = (Some (fst a), revenue (snd a), day_count (snd a)) \<and>
          flt pr (revenue (snd a)) \<and>
          (\<forall>x \<in> set []. flt (revenue (snd x)) (revenue (snd a))) \<and>
          (\<forall>x \<in> set ds. \<not> flt (revenue (snd a)) (revenue (snd x)))"
        by simp
      then show ?thesis by (intro exI[of _ "[]"] exI[of _ a] exI[of _ ds])
    qed
  next
    case False
    then have step: "peak_loop (a # ds) (pd, pr, pc) = peak_loop ds (pd, pr, pc)"
      by (simp add: a)
    from False Cons.prems(2) have "\<exists>e \<in> set ds. flt pr (revenue (snd e))"
      by (auto simp: a)
    from Cons.IH[OF nn this, of pd pc]
    obtain pre e post where r: "ds = pre @ e # post"
      "peak_loop ds (pd, pr, pc) = (Some (fst e), revenue (snd e), day_count (snd e))"
      "flt pr (revenue (snd e))"
      "\<forall>x \<in> set pre. flt (revenue (snd x)) (revenue (snd e))"
      "\<forall>x \<in> set post. \<not> flt (revenue (snd e)) (revenue (snd x))"
      by blast
    have "flt (revenue v) (revenue (snd e))" using nv False r(3) by (rule le_flt_trans)
    then have "\<forall>x \<in> set (a # pre). flt (revenue (snd x)) (revenue (snd e))"
      using r(4) by (simp add: a)
    moreover have "a # ds = (a # pre) @ e # post" using r(1) by simp
    moreover have "peak_loop (a # ds) (pd, pr, pc) =
        (Some (fst e), revenue (snd e), day_count (snd e))"
      using step r(2) by simp
    ultimately show ?thesis
      using r(3,5) by (intro exI[of _ "a # pre"] exI[of _ e] exI[of _ post] conjI)
  qed
qed

lemma daily_loop_distinct:
  "distinct (map fst daily) \<Longrightarrow> distinct (map fst (daily_loop txs daily))"
  by (induction txs arbitrary: daily) (simp_all add: Let_def distinct_update)

lemma daily_loop_positive:
  assumes "\<forall>t \<in> set txs. spec_transaction_invariant t" "\<forall>e \<in> set daily. flt (Fin 0) (fst (snd e))"
  shows "\<forall>e \<in> set (daily_loop txs daily). flt (Fin 0) (fst (snd e))"
  using assms
proof (induction txs arbitrary: daily)
  case Nil
  then show ?case by simp
next
  case (Cons tx txs)
  let ?cur = "case map_of daily (Date tx) of None \<Rightarrow> (Fin 0, 0, []) | Some v \<Rightarrow> v"
  from Cons.prems(1) have am: "flt (Fin 0) (amount tx)" by (simp add: pos_amount)
  have "flt (Fin 0) (fadd (fst ?cur) (amount tx))"
  proof (cases "map_of daily (Date tx)")
    case None
    with am show ?thesis by simp
  next
    case (Some v)
    then have "(Date tx, v) \<in> set daily" by (rule map_of_SomeD)
    with Cons.prems(2) have "flt (Fin 0) (fst v)" by fastforce
    with am Some show ?thesis by (simp add: pos_fadd)
  qed
  with Cons.prems(2) have "\<forall>e \<in> set (AList.update (Date tx)
      (fadd (fst ?cur) (amount tx), fst (snd ?cur) + 1,
       set_add (CustomerID tx) (snd (snd ?cur))) daily). flt (Fin 0) (fst (snd e))"
    by (intro counts_after_update[where P = "\<lambda>v. flt (Fin 0) (fst v)"]) auto
  from Cons.IH[OF _ this] Cons.prems(1) show ?case by (simp add: Let_def)
qed

lemma round_not_nan: "flt (Fin 0) x \<Longrightarrow> py_round2 x \<noteq> NaN"
  by (cases x) (simp_all add: py_round2_def)

lemma daily_trend_not_nan:
  assumes "\<forall>t \<in> set txs. spec_transaction_invariant t"
  shows "\<forall>e \<in> set (daily_sales_trend txs). revenue (snd e) \<noteq> NaN"
proof -
  have "\<forall>e \<in> set (daily_loop txs []). flt (Fin 0) (fst (snd e))"
    using assms by (intro daily_loop_positive) simp_all
  then show ?thesis
    by (auto simp: daily_sales_trend_def daily_final_def round_not_nan)
qed

lemma daily_final_dates: "map fst (map daily_final xs) = map fst xs"
  by (induction xs) (simp_all add: daily_final_def)

lemma distinct_keys_sort_key:
  "distinct (map f xs) \<Longrightarrow> distinct (map f (sort_key g xs))"
  by (simp add: distinct_map)

lemma daily_trend_dates:
  "sorted (map fst (daily_sales_trend txs)) \<and> distinct (map fst (daily_sales_trend txs))"
proof -
  have "distinct (map fst (daily_loop txs []))" by (simp add: daily_loop_distinct)
  then have "distinct (map fst (map daily_final (daily_loop txs [])))"
    by (simp only: daily_final_dates)
  then have "distinct (map fst (sort_key fst (map daily_final (daily_loop txs []))))"
    by (rule distinct_keys_sort_key)
  moreover have "sorted (map fst (sort_key fst (map daily_final (daily_loop txs []))))"
    by (rule sorted_sort_key)
  ultimately show ?thesis by (simp only: daily_sales_trend_def)
qed

lemma later_dates:
  assumes "sorted (map fst (pre @ e # post))" "distinct (map fst (pre @ e # post))"
    "x \<in> set post"
  shows "fst e \<le> fst x"
  using assms by (auto simp: sorted_append)

text \<open>
  What the scan does return: \<open>(None, 0, 0)\<close> when no day has a revenue above 0, and
  otherwise, on valid records, the entry of the greatest revenue, the earliest date
  among equals.
\<close>

lemma peak_day_none:
  "\<forall>e \<in> set (daily_sales_trend txs). \<not> flt (Fin 0) (revenue (snd e)) \<Longrightarrow>
   find_peak_sales_day txs = (None, Fin 0, 0)"
  by (simp add: find_peak_sales_day_def peak_loop_unchanged)

lemma peak_day_when_positive:
  assumes valid: "\<forall>t \<in> set txs. spec_transaction_invariant t"
    and pos: "\<exists>e \<in> set (daily_sales_trend txs). flt (Fin 0) (revenue (snd e))"
  shows "\<exists>e \<in> set (daily_sales_trend txs).
           find_peak_sales_day txs = (Some (fst e), revenue (snd e), day_count (snd e)) \<and>
           (\<forall>x \<in> set (daily_sales_trend txs). \<not> flt (revenue (snd e)) (revenue (snd x))) \<and>
           (\<forall>x \<in> set (daily_sales_trend txs).
              revenue (snd x) = revenue (snd e) \<longrightarrow> fst e \<le> fst x)"
proof -
  let ?ds = "daily_sales_trend txs"
  from peak_loop_first_max[OF daily_trend_not_nan[OF valid] pos, of None 0]
  obtain pre e post where r: "?ds = pre @ e # post"
    "find_peak_sales_day txs = (Some (fst e), revenue (snd e), day_count (snd e))"
    "\<forall>x \<in> set pre. flt (revenue (snd x)) (revenue (snd e))"
    "\<forall>x \<in> set post. \<not> flt (revenue (snd e)) (revenue (snd x))"
    unfolding find_peak_sales_day_def by blast
  have sd: "sorted (map fst (pre @ e # post))" "distinct (map fst (pre @ e # post))"
    using daily_trend_dates[of txs] r(1) by simp_all
  have mem: "e \<in> set ?ds" using r(1) by simp
  have top: "\<forall>x \<in> set ?ds. \<not> flt (revenue (snd e)) (revenue (snd x))"
    using r(1,3,4) by (auto simp: flt_irrefl dest: flt_asym)
  have first: "\<forall>x \<in> set ?ds. revenue (snd x) = revenue (snd e) \<longrightarrow> fst e \<le> fst x"
  proof (intro ballI impI)
    fix x assume x: "x \<in> set ?ds" and tie: "revenue (snd x) = revenue (snd e)"
    from x r(1) consider "x \<in> set pre" | "x = e" | "x \<in> set post" by auto
    then show "fst e \<le> fst x"
    proof cases
      case 1
      with r(3) tie show ?thesis by (auto simp: flt_irrefl)
    next
      case 2
      then show ?thesis by simp
    next
      case 3
      with sd show ?thesis by (rule later_dates)
    qed
  qed
  from mem r(2) top first show ?thesis by blast
qed

text \<open>
  Claim C6 says that \<open>find_peak_sales_day\<close> returns the entry of the daily trend with
  the greatest revenue. The scan starts from the revenue 0 and replaces it only by a
  strictly greater one: the line below is a valid record whose day has the rounded
  revenue 0.0, the daily trend has that one entry, and the function returns
  \<open>(None, 0, 0)\<close>, which is no entry of the trend.
\<close>

theorem peak_day_missed_at_zero_revenue:
  "parse_and_clean_data [''T1|2024-01-01|P1|Sticker|1|0.004|C1|North''] =
     Inr ([\<lparr>TransactionID = ''T1'', Date = ''2024-01-01'', ProductID = ''P1'',
             ProductName = ''Sticker'', Quantity = 1, UnitPrice = Fin (1 / 250),
             CustomerID = ''C1'', Region = ''North''\<rparr>], 0) \<and>
   daily_sales_trend
     [\<lparr>TransactionID = ''T1'', Date = ''2024-01-01'', ProductID = ''P1'',
        ProductName = ''Sticker'', Quantity = 1, UnitPrice = Fin (1 / 250),
        CustomerID = ''C1'', Region = ''North''\<rparr>] =
     [(''2024-01-01'', \<lparr>revenue = Fin 0, day_count = 1, unique_customers = 1\<rparr>)] \<and>
   find_peak_sales_day
     [\<lparr>TransactionID = ''T1'', Date = ''2024-01-01'', ProductID = ''P1'',
        ProductName = ''Sticker'', Quantity = 1, UnitPrice = Fin (1 / 250),
        CustomerID = ''C1'', Region = ''North''\<rparr>] = (None, Fin 0, 0)"
proof -
  have rounded: "py_round2 (Fin (1 / 250)) = Fin 0" by code_simp
  show ?thesis
    by (simp add: parse_defs find_peak_sales_day_def daily_sales_trend_def daily_final_def
        amount_def float_of_int_def set_add_def rounded)
qed

section \<open>The report on data and on no data\<close>

lemma customer_loop_counts:
  "\<forall>e \<in> set cs. 0 < fst (snd (snd e)) \<Longrightarrow>
   \<forall>e \<in> set (customer_loop txs cs). 0 < fst (snd (snd e))"
proof (induction txs arbitrary: cs)
  case Nil
  then show ?case by simp
next
  case (Cons tx txs)
  let ?cur = "case map_of cs (CustomerID tx) of None \<Rightarrow> (Fin 0, 0, []) | Some v \<Rightarrow> v"
  have "0 \<le> fst (snd ?cur)"
  proof (cases "map_of cs (CustomerID tx)")
    case None
    then show ?thesis by simp
  next
    case (Some v)
    then have "(CustomerID tx, v) \<in> set cs" by (rule map_of_SomeD)
    with Cons.prems Some show ?thesis by fastforce
  qed
  then have "0 < fst (snd (fadd (fst ?cur) (amount tx), fst (snd ?cur) + 1,
      set_add (ProductName tx) (snd (snd ?cur))))" by simp
  with Cons.prems have "\<forall>e \<in> set (AList.update (CustomerID tx)
      (fadd (fst ?cur) (amount tx), fst (snd ?cur) + 1,
       set_add (ProductName tx) (snd (snd ?cur))) cs). 0 < fst (snd (snd e))"
    by (intro counts_after_update[where P = "\<lambda>v. 0 < fst (snd v)"]) auto
  from Cons.IH[OF this] show ?case by (simp add: Let_def)
qed

lemma customer_result_returns:
  "\<forall>e \<in> set cs. 0 < fst (snd (snd e)) \<Longrightarrow> \<exists>r. customer_result cs = Inr r"
proof (induction cs rule: customer_result.induct)
  case 1
  show ?case by simp
next
  case (2 cid spent cnt prods rest)
  from "2.prems" have nz: "float_of_int cnt \<noteq> Fin 0" by (simp add: float_of_int_def)
  then obtain avg where avg: "fdiv spent (float_of_int cnt) = Inr avg" by (simp add: fdiv_def)
  from "2.IH"[OF avg] "2.prems" obtain r where "customer_result rest = Inr r" by auto
  with avg show ?case by simp
qed

lemma customer_analysis_returns: "\<exists>r. customer_analysis txs = Inr r"
proof -
  have "\<forall>e \<in> set (customer_loop txs []). 0 < fst (snd (snd e))"
    by (rule customer_loop_counts) simp
  from customer_result_returns[OF this] show ?thesis
    by (auto simp: customer_analysis_def)
qed

text \<open>
  On valid records, not empty, with an enriched list that is not empty, the report is
  written.
\<close>

lemma report_written_on_data:
  assumes "transactions \<noteq> []" "\<forall>t \<in> set transactions. spec_transaction_invariant t"
    "enriched_transactions \<noteq> []"
  shows "\<exists>doc. generate_sales_report now transactions enriched_transactions = Inr doc"
proof -
  from assms(1) obtain lo hi where
    lo: "py_min (map Date transactions) = Inr lo" and hi: "py_max (map Date transactions) = Inr hi"
    by (cases transactions) (simp_all add: py_min_def py_max_def)
  from assms(1,2) have "calculate_total_revenue transactions \<noteq> Fin 0"
    using valid_revenue_positive pos_nonzero by blast
  then obtain rs where rs: "region_wise_sales transactions = Inr rs"
    using region_sales_general[of transactions] by blast
  obtain cs where cs: "customer_analysis transactions = Inr cs"
    using customer_analysis_returns by blast
  from assms(3) have "float_of_int (int (length enriched_transactions)) \<noteq> Fin 0"
    by (simp add: float_of_int_def)
  then obtain ratio where ratio:
    "fdiv (float_of_int (int (length (filter API_Match enriched_transactions))))
          (float_of_int (int (length enriched_transactions))) = Inr ratio"
    by (simp add: fdiv_def)
  from assms(1) have "float_of_int (int (length transactions)) \<noteq> Fin 0"
    by (simp add: float_of_int_def)
  then obtain average where average:
    "fdiv (calculate_total_revenue transactions) (float_of_int (int (length transactions))) = Inr average"
    by (simp add: fdiv_def)
  show ?thesis
    by (simp add: generate_sales_report_def Let_def lo hi rs cs ratio average)
qed

text \<open>
  Claim C1 says that the report is written for an empty collection. The code takes
  \<open>min(date_list)\<close> before it opens the file: on no transactions this raises
  \<open>ValueError\<close> and nothing is written.
\<close>

theorem report_on_empty_raises:
  "generate_sales_report now [] [] = Inl ValueError"
  by (simp add: generate_sales_report_def py_min_def)

end
